theory Spec2Isabelle
  imports Main
begin

section \<open>JavaScript values and strings\<close>

text \<open>
  The two clients are browser scripts: \<^verbatim>\<open>frontend/app.js\<close> (the streaming client
  for the LangGraph Agent Server) and \<^verbatim>\<open>frontend_ls/app.js\<close> (the request/response
  client for LangServe). A JavaScript string is a sequence of UTF-16 code units; it is
  modelled as a list of natural numbers, so that every character the source mentions
  (the ellipsis of \<^verbatim>\<open>truncate\<close>, the white space of \<^verbatim>\<open>trim\<close>) is a value of
  the model. \<open>js\<close> turns an ASCII literal into such a string.
\<close>

type_synonym jstring = "nat list"

definition js :: "string \<Rightarrow> jstring" where
  "js s = map of_char s"

abbreviation LF :: nat where "LF \<equiv> 10"
abbreviation CR :: nat where "CR \<equiv> 13"

text \<open>
  A value is what \<^verbatim>\<open>JSON.parse\<close> returns, plus \<^verbatim>\<open>undefined\<close> (the result of reading
  a property that is not there) and built-in functions (the result of reading an
  inherited member such as \<^verbatim>\<open>[].values\<close>). A number is kept as its canonical
  decimal text: the source only tests numbers for truthiness and prints them.
  An object is the list of its own properties in the order of \<^verbatim>\<open>Object.keys\<close>, each
  key once.
\<close>

datatype jsval =
    Undefined
  | Null
  | Bool bool
  | Num jstring
  | Str jstring
  | Arr "jsval list"
  | Obj "(jstring \<times> jsval) list"
  | NativeFn jstring

fun truthy :: "jsval \<Rightarrow> bool" where
  "truthy Undefined = False"
| "truthy Null = False"
| "truthy (Bool b) = b"
| "truthy (Num t) = (t \<noteq> js ''0'')"
| "truthy (Str s) = (s \<noteq> [])"
| "truthy (Arr _) = True"
| "truthy (Obj _) = True"
| "truthy (NativeFn _) = True"

fun nullish :: "jsval \<Rightarrow> bool" where
  "nullish Undefined = True"
| "nullish Null = True"
| "nullish _ = False"

text \<open>\<^verbatim>\<open>a || b\<close> and \<^verbatim>\<open>a ?? b\<close>.\<close>

definition js_or :: "jsval \<Rightarrow> jsval \<Rightarrow> jsval" where
  "js_or a b = (if truthy a then a else b)"

definition js_coalesce :: "jsval \<Rightarrow> jsval \<Rightarrow> jsval" where
  "js_coalesce a b = (if nullish a then b else a)"

fun typeof :: "jsval \<Rightarrow> string" where
  "typeof Undefined = ''undefined''"
| "typeof Null = ''object''"
| "typeof (Bool _) = ''boolean''"
| "typeof (Num _) = ''number''"
| "typeof (Str _) = ''string''"
| "typeof (Arr _) = ''object''"
| "typeof (Obj _) = ''object''"
| "typeof (NativeFn _) = ''function''"

fun digit_char :: "nat \<Rightarrow> nat" where
  "digit_char d = 48 + d"

fun string_of_nat :: "nat \<Rightarrow> jstring" where
  "string_of_nat n =
     (if n < 10 then [digit_char n] else string_of_nat (n div 10) @ [digit_char (n mod 10)])"

declare string_of_nat.simps [simp del]

text \<open>
  Property read \<^verbatim>\<open>v.k\<close> and \<^verbatim>\<open>v?.k\<close>. Of the property names the source reads by
  name, only \<^verbatim>\<open>values\<close> is inherited by a value that \<^verbatim>\<open>JSON.parse\<close> can return
  (an array inherits \<^verbatim>\<open>Array.prototype.values\<close>). Every plain \<^verbatim>\<open>.\<close> read of the
  modelled functions is guarded by a truthiness test of the receiver, except where a
  function below says that it raises.
\<close>

fun get :: "jsval \<Rightarrow> jstring \<Rightarrow> jsval" where
  "get (Obj kvs) k = (case map_of kvs k of Some v \<Rightarrow> v | None \<Rightarrow> Undefined)"
| "get (Arr xs) k = (if k = js ''values'' then NativeFn (js ''values'') else Undefined)"
| "get _ k = Undefined"

text \<open>
  A raised exception is a value: its \<^verbatim>\<open>name\<close> and its \<^verbatim>\<open>message\<close>. \<open>error_text\<close> is
  \<^verbatim>\<open>String(e?.message || e)\<close>.
\<close>

datatype js_error = Err (e_name: jstring) (e_message: jstring)

definition new_Error :: "jstring \<Rightarrow> js_error" where
  "new_Error m = Err (js ''Error'') m"

definition error_text :: "js_error \<Rightarrow> jstring" where
  "error_text e = (if e_message e \<noteq> [] then e_message e else e_name e)"

fun join :: "jstring \<Rightarrow> jstring list \<Rightarrow> jstring" where
  "join sep [] = []"
| "join sep [x] = x"
| "join sep (x # y # ys) = x @ sep @ join sep (y # ys)"

text \<open>
  The conversion of a value to a string: \<^verbatim>\<open>String(v)\<close>, a value inside a template
  string, the second argument of \<^verbatim>\<open>localStorage.setItem\<close>, a value assigned to
  \<^verbatim>\<open>textContent\<close>. \<open>None\<close> is the \<^verbatim>\<open>TypeError\<close> that the conversion raises. It raises
  on an object with an own property \<^verbatim>\<open>toString\<close>: what \<^verbatim>\<open>JSON.parse\<close> puts there
  cannot be called, the inherited \<^verbatim>\<open>valueOf\<close> returns the object, and an own
  \<^verbatim>\<open>valueOf\<close> cannot be called either. An object without that property prints as
  \<^verbatim>\<open>[object Object]\<close>. An array prints its elements with commas between them,
  \<^verbatim>\<open>null\<close> and \<^verbatim>\<open>undefined\<close> as nothing, and raises when an element does.
\<close>

fun js_String :: "jsval \<Rightarrow> jstring option" where
  "js_String Undefined = Some (js ''undefined'')"
| "js_String Null = Some (js ''null'')"
| "js_String (Bool b) = Some (if b then js ''true'' else js ''false'')"
| "js_String (Num t) = Some t"
| "js_String (Str s) = Some s"
| "js_String (Arr xs) =
     map_option (join (js '',''))
       (those (map (\<lambda>x. if nullish x then Some [] else js_String x) xs))"
| "js_String (Obj kvs) =
     (if map_of kvs (js ''toString'') = None then Some (js ''[object Object]'') else None)"
| "js_String (NativeFn n) = Some (js ''function '' @ n @ js ''() { [native code] }'')"

text \<open>The exception of a conversion, with the message as V8 prints it.\<close>

definition cannot_convert :: js_error where
  "cannot_convert = Err (js ''TypeError'') (js ''Cannot convert object to primitive value'')"

definition to_text :: "jsval \<Rightarrow> js_error + jstring" where
  "to_text v = (case js_String v of Some t \<Rightarrow> Inr t | None \<Rightarrow> Inl cannot_convert)"

text \<open>White space and line terminators, as \<^verbatim>\<open>String.prototype.trim\<close> removes them.\<close>

definition is_space :: "nat \<Rightarrow> bool" where
  "is_space c \<longleftrightarrow>
     c \<in> {9, 10, 11, 12, 13, 32, 160, 5760, 8232, 8233, 8239, 8287, 12288, 65279}
     \<or> (8192 \<le> c \<and> c \<le> 8202)"

definition trim :: "jstring \<Rightarrow> jstring" where
  "trim s = rev (dropWhile is_space (rev (dropWhile is_space s)))"

section \<open>The streaming client: state\<close>

datatype phase = Idle | Starting | WaitingApproval | Resuming | Done | Error

text \<open>
  One entry of \<^verbatim>\<open>logItems\<close>. \<^verbatim>\<open>timeISO\<close> is the reading of the clock when the
  entry is made.
\<close>

record log_item =
  timeISO :: jstring
  tag :: jstring
  agent :: jstring
  summary :: jstring
  detail :: jstring
  raw :: jsval

text \<open>
  The argument object of \<^verbatim>\<open>addLogEntry\<close>. At every call of the script \<^verbatim>\<open>tag\<close>,
  \<^verbatim>\<open>summary\<close> and \<^verbatim>\<open>detail\<close> are strings (a literal, a template string, the result of
  \<^verbatim>\<open>truncate\<close> or of \<^verbatim>\<open>JSON.stringify\<close> of a value that is there) or are left out;
  a field left out is the empty string here, which \<^verbatim>\<open>||\<close> treats as it treats
  \<^verbatim>\<open>undefined\<close>. \<^verbatim>\<open>agent\<close> is left out or is an entry of \<^verbatim>\<open>NODE_LABEL\<close> or a key;
  \<open>a_agent\<close> is \<^verbatim>\<open>agent ? String(agent) : ""\<close>, computed by \<open>agent_text\<close> below where
  the call is made.
\<close>

record log_args =
  a_tag :: jstring
  a_agent :: jstring
  a_summary :: jstring
  a_detail :: jstring
  a_raw :: jsval

text \<open>
  The requests the script sends, in the order sent: \<^verbatim>\<open>POST /threads\<close>,
  \<^verbatim>\<open>POST /threads/{id}/runs/stream\<close> with the body of a start or of a resume, and
  \<^verbatim>\<open>GET /threads/{id}\<close>; the identifier is the text that the template string of the
  address holds.
\<close>

datatype run_body = StartInput jstring | ResumeCommand jstring

datatype request = PostThreads | PostRunStream jstring run_body | GetThread jstring

text \<open>
  The globals of the script (\<^verbatim>\<open>threadId\<close>, \<^verbatim>\<open>uiState\<close>, \<^verbatim>\<open>logItems\<close>), the entry
  of \<^verbatim>\<open>localStorage\<close> under \<^verbatim>\<open>THREAD_ID_KEY\<close>, and the parts of the page that the
  run logic writes: the step handed to \<^verbatim>\<open>setWork\<close>, the approval card with the text
  of its question and the preview rendered in it (\<open>Undefined\<close> when none is), the report
  card with its text, the error banner. \<open>clock\<close> is what \<^verbatim>\<open>nowISO()\<close> returns.
  Rendering proper (labels, button enabling, the JSON status panel) and the stored topic
  are not part of the state.
\<close>

record app =
  threadId :: jsval
  stored_tid :: "jstring option"
  uiState :: phase
  logItems :: "log_item list"
  work :: jstring
  approvalShown :: bool
  question :: jstring
  preview :: jsval
  reportShown :: bool
  reportText :: jstring
  statusShown :: bool
  errorText :: jstring
  clock :: jstring
  requests :: "request list"

text \<open>The state when the script has been loaded and nothing has happened yet.\<close>

definition initial_app :: "jstring \<Rightarrow> jstring option \<Rightarrow> app" where
  "initial_app now saved =
     \<lparr> threadId = Null, stored_tid = saved, uiState = Idle, logItems = [], work = [],
       approvalShown = False, question = [], preview = Undefined,
       reportShown = False, reportText = [], statusShown = False, errorText = [],
       clock = now, requests = [] \<rparr>"

definition MAX_LOG_ITEMS :: nat where
  "MAX_LOG_ITEMS = 80"

definition mk_log_item :: "jstring \<Rightarrow> log_args \<Rightarrow> log_item" where
  "mk_log_item now a =
     \<lparr> timeISO = now,
       tag = (if a_tag a \<noteq> [] then a_tag a else js ''LOG''),
       agent = a_agent a,
       summary = a_summary a,
       detail = a_detail a,
       raw = js_coalesce (a_raw a) Null \<rparr>"

text \<open>
  \<^verbatim>\<open>logItems.unshift(item); if (logItems.length > MAX_LOG_ITEMS) logItems =
  logItems.slice(0, MAX_LOG_ITEMS)\<close>.
\<close>

definition unshift_capped :: "'a \<Rightarrow> 'a list \<Rightarrow> 'a list" where
  "unshift_capped x xs =
     (let ys = x # xs in if length ys > MAX_LOG_ITEMS then take MAX_LOG_ITEMS ys else ys)"

definition addLogEntry :: "log_args \<Rightarrow> app \<Rightarrow> app" where
  "addLogEntry a st = st\<lparr>logItems := unshift_capped (mk_log_item (clock st) a) (logItems st)\<rparr>"

text \<open>The call with a tag, a summary and a detail only.\<close>

definition log3 :: "jstring \<Rightarrow> jstring \<Rightarrow> jstring \<Rightarrow> log_args" where
  "log3 t s d = \<lparr> a_tag = t, a_agent = [], a_summary = s, a_detail = d, a_raw = Undefined \<rparr>"

section \<open>The request/response client: state\<close>

text \<open>
  The one request of this client, \<^verbatim>\<open>POST /agent/invoke\<close>, with the \<^verbatim>\<open>action\<close>, the
  \<^verbatim>\<open>thread_id\<close> and the topic or the decision of its input.
\<close>

datatype ls_request = Invoke jstring jsval jstring

record ls_log_item =
  ls_timeISO :: jstring
  ls_tag :: jstring
  ls_message :: jstring

record ls_app =
  ls_threadId :: jsval
  ls_stored_tid :: "jstring option"
  ls_uiState :: phase
  ls_logItems :: "ls_log_item list"
  ls_approvalShown :: bool
  ls_question :: jstring
  ls_preview :: jsval
  ls_reportShown :: bool
  ls_reportText :: jstring
  ls_statusShown :: bool
  ls_errorText :: jstring
  ls_clock :: jstring
  ls_requests :: "ls_request list"

definition ls_initial_app :: "jstring \<Rightarrow> jstring option \<Rightarrow> ls_app" where
  "ls_initial_app now saved =
     \<lparr> ls_threadId = Null, ls_stored_tid = saved, ls_uiState = Idle, ls_logItems = [],
       ls_approvalShown = False, ls_question = [], ls_preview = Undefined,
       ls_reportShown = False, ls_reportText = [], ls_statusShown = False,
       ls_errorText = [], ls_clock = now, ls_requests = [] \<rparr>"

text \<open>\<^verbatim>\<open>addLog(tag, message)\<close>; both arguments are strings at every call.\<close>

definition addLog :: "jstring \<Rightarrow> jstring \<Rightarrow> ls_app \<Rightarrow> ls_app" where
  "addLog t m st =
     st\<lparr>ls_logItems :=
          unshift_capped \<lparr> ls_timeISO = ls_clock st, ls_tag = t, ls_message = m \<rparr>
            (ls_logItems st)\<rparr>"

section \<open>Reading a thread snapshot or a payload\<close>

text \<open>
  One turn of the loop of \<^verbatim>\<open>extractInterruptPayload\<close> over a candidate \<open>c\<close>:
  \<open>Some payload\<close> when the turn returns the payload, \<open>None\<close> when it goes on to the
  next candidate.
\<close>

definition candidate_payload :: "jsval \<Rightarrow> jsval option" where
  "candidate_payload c =
     (let first = (case c of Arr xs \<Rightarrow> (case xs of [] \<Rightarrow> Undefined | x # _ \<Rightarrow> x) | _ \<Rightarrow> c)
      in if \<not> truthy first then None
         else let payload = js_coalesce (get first (js ''value'')) first
              in if \<not> truthy payload then None
                 else if get payload (js ''kind'') = Str (js ''approval_request'')
                         \<or> truthy (get payload (js ''question''))
                         \<or> truthy (get payload (js ''analysis_preview''))
                      then Some payload
                      else None)"

fun first_candidate :: "jsval list \<Rightarrow> jsval option" where
  "first_candidate [] = None"
| "first_candidate (c # cs) =
     (case candidate_payload c of Some payload \<Rightarrow> Some payload | None \<Rightarrow> first_candidate cs)"

definition fallback_interrupt :: jsval where
  "fallback_interrupt =
     Obj [(js ''kind'', Str (js ''approval_request'')),
          (js ''question'', Str (js ''Approve?'')),
          (js ''options'', Arr [Str (js ''y''), Str (js ''retry''), Str (js ''n'')]),
          (js ''analysis_preview'', Arr [])]"

text \<open>
  The result is \<open>Inr\<close> of \<open>Null\<close> or of the payload, as in the source, or \<open>Inl\<close> of the
  exception that \<^verbatim>\<open>String(obj.status || "")\<close> raises once the loop has returned
  nothing.
\<close>

definition extractInterruptPayload :: "jsval \<Rightarrow> js_error + jsval" where
  "extractInterruptPayload obj =
     (if \<not> truthy obj then Inr Null
      else let candidates =
                 filter truthy
                   [get obj (js ''__interrupt__''),
                    get (get obj (js ''values'')) (js ''__interrupt__''),
                    get obj (js ''interrupts''),
                    get (get obj (js ''values'')) (js ''interrupts'')]
           in case first_candidate candidates of
                Some payload \<Rightarrow> Inr payload
              | None \<Rightarrow>
                  (case js_String (js_or (get obj (js ''status'')) (Str [])) of
                     None \<Rightarrow> Inl cannot_convert
                   | Some s \<Rightarrow> if s = js ''interrupted'' then Inr fallback_interrupt else Inr Null))"

definition extractFinalReportFromThread :: "jsval \<Rightarrow> jstring" where
  "extractFinalReportFromThread threadObj =
     (let values = get threadObj (js ''values'')
      in if \<not> truthy values then []
         else (case get values (js ''final_report'') of
                 Str r \<Rightarrow> if trim r \<noteq> [] then r else []
               | _ \<Rightarrow> []))"

text \<open>\<open>Inl\<close> is the exception that \<^verbatim>\<open>String(values.current_step || "")\<close> raises.\<close>

definition extractCurrentStepFromThread :: "jsval \<Rightarrow> js_error + jstring" where
  "extractCurrentStepFromThread threadObj =
     (let values = get threadObj (js ''values'')
      in if \<not> truthy values then Inr []
         else to_text (js_or (get values (js ''current_step'')) (Str [])))"


section \<open>The frame decoder\<close>

text \<open>\<^verbatim>\<open>s.replace(/\r\n/g, "\n")\<close>: one pass from the left over non-overlapping matches.\<close>

fun crlf_to_lf :: "jstring \<Rightarrow> jstring" where
  "crlf_to_lf [] = []"
| "crlf_to_lf [c] = [c]"
| "crlf_to_lf (c # d # s) =
     (if c = CR \<and> d = LF then LF # crlf_to_lf s else c # crlf_to_lf (d # s))"

text \<open>\<^verbatim>\<open>s.indexOf(pat)\<close>, with \<open>None\<close> for \<^verbatim>\<open>-1\<close>.\<close>

fun indexOf :: "jstring \<Rightarrow> jstring \<Rightarrow> nat option" where
  "indexOf pat [] = (if pat = [] then Some 0 else None)"
| "indexOf pat (c # s) =
     (if take (length pat) (c # s) = pat then Some 0 else map_option Suc (indexOf pat s))"

definition startsWith :: "jstring \<Rightarrow> jstring \<Rightarrow> bool" where
  "startsWith s p \<longleftrightarrow> take (length p) s = p"

text \<open>\<^verbatim>\<open>s.split("\n")\<close>: at least one piece, the separators removed.\<close>

fun split_lines :: "jstring \<Rightarrow> jstring list" where
  "split_lines [] = [[]]"
| "split_lines (c # s) =
     (if c = LF then [] # split_lines s
      else (case split_lines s of l # ls \<Rightarrow> (c # l) # ls | [] \<Rightarrow> [[c]]))"

record frame =
  f_id :: jstring
  f_event :: jstring
  f_data :: jsval

text \<open>
  The variables of the loop of \<^verbatim>\<open>parseSseFrame\<close> are \<^verbatim>\<open>eventName\<close>,
  \<^verbatim>\<open>dataLines\<close> and \<^verbatim>\<open>id\<close>; \<open>parse_line\<close> is one turn of the loop.
\<close>

definition parse_line :: "jstring \<times> jstring list \<times> jstring \<Rightarrow> jstring \<Rightarrow> jstring \<times> jstring list \<times> jstring" where
  "parse_line acc line =
     (case acc of (eventName, dataLines, ident) \<Rightarrow>
        if line = [] then acc
        else if startsWith line (js '':'') then acc
        else if startsWith line (js ''event:'') then (trim (drop 6 line), dataLines, ident)
        else if startsWith line (js ''data:'') then (eventName, dataLines @ [trim (drop 5 line)], ident)
        else if startsWith line (js ''id:'') then (eventName, dataLines, trim (drop 3 line))
        else acc)"

text \<open>
  \<^verbatim>\<open>JSON.parse\<close> is the engine's; \<open>jp\<close> stands for it, \<open>None\<close> when it raises.
\<close>

definition parseSseFrame :: "(jstring \<Rightarrow> jsval option) \<Rightarrow> jstring \<Rightarrow> frame" where
  "parseSseFrame jp frameText =
     (let normalized = crlf_to_lf frameText;
          lines = split_lines normalized;
          (eventName, dataLines, ident) = foldl parse_line ([], [], []) lines;
          dataRaw = join [LF] dataLines;
          data = (if dataRaw \<noteq> []
                  then (case jp dataRaw of Some v \<Rightarrow> v | None \<Rightarrow> Str dataRaw)
                  else Str dataRaw)
      in \<lparr> f_id = ident, f_event = eventName, f_data = data \<rparr>)"

lemma indexOf_bound: "indexOf pat s = Some i \<Longrightarrow> i + length pat \<le> length s"
proof (induction s arbitrary: i)
  case Nil
  then show ?case by (simp split: if_splits)
next
  case (Cons c s)
  show ?case
  proof (cases "take (length pat) (c # s) = pat")
    case True
    have "length pat \<le> length (c # s)"
    proof (rule ccontr)
      assume short: "\<not> length pat \<le> length (c # s)"
      then have "take (length pat) (c # s) = c # s" by simp
      with True have "pat = c # s" by simp
      with short show False by simp
    qed
    with True Cons.prems show ?thesis by simp
  next
    case False
    with Cons.prems obtain j where "indexOf pat s = Some j" "i = Suc j" by auto
    with Cons.IH show ?thesis by fastforce
  qed
qed

text \<open>
  The inner loop of \<^verbatim>\<open>runStream\<close>: while the buffer holds a blank line, cut the
  text before it, trim it, skip it when empty, parse it otherwise. The result is the
  frames handed to \<^verbatim>\<open>onEvent\<close>, in order, and the buffer that is left.
\<close>

function drain :: "(jstring \<Rightarrow> jsval option) \<Rightarrow> jstring \<Rightarrow> frame list \<times> jstring" where
  "drain jp buffer =
     (case indexOf [LF, LF] buffer of
        None \<Rightarrow> ([], buffer)
      | Some sepIndex \<Rightarrow>
          (let fr = trim (take sepIndex buffer);
               (evs, rest) = drain jp (drop (sepIndex + 2) buffer)
           in (if fr = [] then evs else parseSseFrame jp fr # evs, rest)))"
  by pat_completeness auto
termination
proof (relation "measure (\<lambda>(jp, buffer). length buffer)")
  show "wf (measure (\<lambda>(jp, buffer). length buffer))" by simp
next
  fix jp :: "jstring \<Rightarrow> jsval option" and buffer :: jstring and x2 :: nat
  assume "indexOf [LF, LF] buffer = Some x2"
  then have "x2 + 2 \<le> length buffer" using indexOf_bound by fastforce
  then show "((jp, drop (x2 + 2) buffer), (jp, buffer)) \<in> measure (\<lambda>(jp, buffer). length buffer)"
    by simp
qed

declare drain.simps [simp del]

text \<open>
  The outer loop of \<^verbatim>\<open>runStream\<close> over the chunks that \<^verbatim>\<open>reader.read()\<close> delivers
  (as text, after the streaming \<^verbatim>\<open>TextDecoder\<close>): append the chunk, normalise the line
  ends of the whole buffer, drain. What is left in the buffer when the stream ends is
  dropped.
\<close>

fun feed :: "(jstring \<Rightarrow> jsval option) \<Rightarrow> jstring \<Rightarrow> jstring list \<Rightarrow> frame list" where
  "feed jp buffer [] = []"
| "feed jp buffer (chunk # chunks) =
     (let (evs, rest) = drain jp (crlf_to_lf (buffer @ chunk)) in evs @ feed jp rest chunks)"

text \<open>Does the text hold a carriage return followed by a carriage return and a line feed?\<close>

fun has_crcrlf :: "jstring \<Rightarrow> bool" where
  "has_crcrlf (a # b # c # s) = ((a = CR \<and> b = CR \<and> c = LF) \<or> has_crcrlf (b # c # s))"
| "has_crcrlf _ = False"

fun has_crlf :: "jstring \<Rightarrow> bool" where
  "has_crlf (a # b # s) = ((a = CR \<and> b = LF) \<or> has_crlf (b # s))"
| "has_crlf _ = False"

text \<open>
  The blocks of a normalised text, as the specification has them: the pieces that end at
  a blank line (two line feeds), each cut at the first blank line after the previous
  one, in order; what follows the last blank line is not a block.
\<close>

function blocks :: "jstring \<Rightarrow> jstring list" where
  "blocks buffer =
     (case indexOf [LF, LF] buffer of
        None \<Rightarrow> []
      | Some i \<Rightarrow> take i buffer # blocks (drop (i + 2) buffer))"
  by pat_completeness auto
termination
proof (relation "measure length")
  show "wf (measure length)" by simp
next
  fix buffer :: jstring and x2 :: nat
  assume "indexOf [LF, LF] buffer = Some x2"
  then have "x2 + 2 \<le> length buffer" using indexOf_bound by fastforce
  then show "(drop (x2 + 2) buffer, buffer) \<in> measure length" by simp
qed

declare blocks.simps [simp del]

section \<open>The streaming client: classification of frames\<close>

text \<open>
  What the script takes from its environment: \<^verbatim>\<open>JSON.parse\<close> (\<open>None\<close> when it raises),
  \<^verbatim>\<open>JSON.stringify(v, null, 2)\<close>, \<^verbatim>\<open>JSON.stringify(v)\<close> and the base address
  \<^verbatim>\<open>API_BASE\<close> computed when the page loads.
\<close>

record env =
  jsonParse :: "jstring \<Rightarrow> jsval option"
  stringify2 :: "jsval \<Rightarrow> jstring"
  stringify :: "jsval \<Rightarrow> jstring"
  API_BASE :: jstring

definition SHOW_NOISY_SSE :: bool where
  "SHOW_NOISY_SSE = False"

definition NODE_LABEL_own :: "(jstring \<times> jstring) list" where
  "NODE_LABEL_own =
     [(js ''research_agent'', js ''Research (research_agent)''),
      (js ''tools'', js ''Search (tools)''),
      (js ''summary_agent'', js ''Summary (summary_agent)''),
      (js ''market_agent'', js ''Market analysis (market_agent)''),
      (js ''technical_agent'', js ''Technical review (technical_agent)''),
      (js ''human_approval'', js ''Awaiting approval (human_approval)''),
      (js ''report_agent'', js ''Report generation (report_agent)'')]"

definition object_prototype_members :: "jstring list" where
  "object_prototype_members =
     [js ''__defineGetter__'', js ''__defineSetter__'', js ''hasOwnProperty'',
      js ''__lookupGetter__'', js ''__lookupSetter__'', js ''isPrototypeOf'',
      js ''propertyIsEnumerable'', js ''toString'', js ''valueOf'', js ''toLocaleString'']"

text \<open>
  \<^verbatim>\<open>NODE_LABEL[k]\<close> for a key computed at run time: a label, or a member that the
  object literal inherits from \<^verbatim>\<open>Object.prototype\<close>, or \<^verbatim>\<open>undefined\<close>.
\<close>

definition NODE_LABEL :: "jstring \<Rightarrow> jsval" where
  "NODE_LABEL k =
     (case map_of NODE_LABEL_own k of
        Some l \<Rightarrow> Str l
      | None \<Rightarrow>
          if k = js ''__proto__'' then Obj []
          else if k = js ''constructor'' then NativeFn (js ''Object'')
          else if k \<in> set object_prototype_members then NativeFn k
          else Undefined)"

text \<open>
  \<^verbatim>\<open>setWork\<close> keeps the step it is given (\<^verbatim>\<open>-\<close> for none); the badge shows
  \<^verbatim>\<open>NODE_LABEL[s] || s\<close>.
\<close>

definition setWork :: "jstring \<Rightarrow> app \<Rightarrow> app" where
  "setWork nodeKeyOrLabel st = st\<lparr>work := (if nodeKeyOrLabel \<noteq> [] then nodeKeyOrLabel else js ''-'')\<rparr>"

definition setUiState :: "phase \<Rightarrow> app \<Rightarrow> app" where
  "setUiState p st = st\<lparr>uiState := p\<rparr>"

definition setError :: "jstring \<Rightarrow> app \<Rightarrow> app" where
  "setError message st =
     (if message = [] then st\<lparr>errorText := []\<rparr>
      else st\<lparr>statusShown := True, errorText := message\<rparr>)"

text \<open>\<^verbatim>\<open>setStatus\<close> shows the status card; the JSON text it prints is not modelled.\<close>

definition setStatus :: "app \<Rightarrow> app" where
  "setStatus st = st\<lparr>statusShown := True\<rparr>"

definition truncate :: "jstring \<Rightarrow> nat \<Rightarrow> jstring" where
  "truncate t n = (if length t \<le> n then t else take n t @ [8230])"

text \<open>\<^verbatim>\<open>Object.keys(u)\<close> and the values \<^verbatim>\<open>u[k]\<close> in that order.\<close>

definition own_keys :: "jsval \<Rightarrow> jstring list" where
  "own_keys u =
     (case u of Obj kvs \<Rightarrow> map fst kvs
              | Arr xs \<Rightarrow> map string_of_nat [0..<length xs]
              | _ \<Rightarrow> [])"

definition own_values :: "jsval \<Rightarrow> jsval list" where
  "own_values u =
     (case u of Obj kvs \<Rightarrow> map (\<lambda>k. get u k) (map fst kvs)
              | Arr xs \<Rightarrow> xs
              | _ \<Rightarrow> [])"

definition updates_root :: "jsval \<Rightarrow> jsval" where
  "updates_root obj =
     (let up = get obj (js ''updates'')
      in if truthy up \<and> typeof up = ''object'' then up else obj)"

definition pickNodeKeyFromUpdates :: "jsval \<Rightarrow> jstring" where
  "pickNodeKeyFromUpdates obj =
     (if \<not> truthy obj \<or> typeof obj \<noteq> ''object'' then []
      else let u = updates_root obj
           in if \<not> truthy u \<or> typeof u \<noteq> ''object'' then []
              else (case find (\<lambda>k. truthy (NODE_LABEL k)) (own_keys u) of
                      Some k \<Rightarrow> k
                    | None \<Rightarrow> []))"

text \<open>
  The test of the loop of \<^verbatim>\<open>pickCurrentStepFromUpdates\<close> on a value \<open>v\<close>, and the step
  it returns then.
\<close>

definition is_start_marker :: "jsval \<Rightarrow> bool" where
  "is_start_marker v \<longleftrightarrow>
     truthy v \<and> typeof v = ''object''
     \<and> (case get v (js ''current_step'') of Str c \<Rightarrow> trim c \<noteq> [] | _ \<Rightarrow> False)"

definition marker_step :: "jsval \<Rightarrow> jstring" where
  "marker_step v = (case get v (js ''current_step'') of Str c \<Rightarrow> trim c | _ \<Rightarrow> [])"

definition pickCurrentStepFromUpdates :: "jsval \<Rightarrow> jstring" where
  "pickCurrentStepFromUpdates obj =
     (if \<not> truthy obj \<or> typeof obj \<noteq> ''object'' then []
      else let u = updates_root obj
           in if \<not> truthy u \<or> typeof u \<noteq> ''object'' then []
              else (case find is_start_marker (own_values u) of
                      Some v \<Rightarrow> marker_step v
                    | None \<Rightarrow> []))"

definition last_message_text :: "env \<Rightarrow> jsval \<Rightarrow> jstring" where
  "last_message_text E lastv =
     (let content =
            js_coalesce (get lastv (js ''content''))
              (js_coalesce (get lastv (js ''text''))
                 (js_coalesce (get lastv (js ''message'')) lastv))
      in case content of Str c \<Rightarrow> c | _ \<Rightarrow> stringify2 E content)"

definition extractReadableOutputFromNodeState :: "env \<Rightarrow> jsval \<Rightarrow> jstring" where
  "extractReadableOutputFromNodeState E nodeState =
     (if \<not> truthy nodeState \<or> typeof nodeState \<noteq> ''object'' then []
      else case get nodeState (js ''final_report'') of
             Str r \<Rightarrow>
               if trim r \<noteq> [] then r
               else (case get nodeState (js ''analysis_messages'') of
                       Arr (x # xs) \<Rightarrow> last_message_text E (last (x # xs))
                     | _ \<Rightarrow>
                       (case get nodeState (js ''research_messages'') of
                          Arr (y # ys) \<Rightarrow> last_message_text E (last (y # ys))
                        | _ \<Rightarrow> stringify2 E nodeState))
           | _ \<Rightarrow>
               (case get nodeState (js ''analysis_messages'') of
                  Arr (x # xs) \<Rightarrow> last_message_text E (last (x # xs))
                | _ \<Rightarrow>
                  (case get nodeState (js ''research_messages'') of
                     Arr (y # ys) \<Rightarrow> last_message_text E (last (y # ys))
                   | _ \<Rightarrow> stringify2 E nodeState)))"

text \<open>
  \<^verbatim>\<open>agent ? String(agent) : ""\<close> of \<^verbatim>\<open>addLogEntry\<close>, for the agents that the script
  passes: \<^verbatim>\<open>NODE_LABEL.human_approval\<close> and \<^verbatim>\<open>NODE_LABEL[k] || k\<close> with a string
  \<open>k\<close>. These are strings, built-in functions or \<^verbatim>\<open>Object.prototype\<close>, on which the
  conversion does not raise (lemma \<open>agent_defined\<close> below), so the last branch is never
  taken.
\<close>

definition agent_text :: "jsval \<Rightarrow> jstring" where
  "agent_text v =
     (if truthy v then (case js_String v of Some t \<Rightarrow> t | None \<Rightarrow> []) else [])"

text \<open>
  \<^verbatim>\<open>renderPreview\<close> of this client builds one item for each element of the list (no
  item when the argument is not an array); \<open>Some e\<close> is the exception that
  \<^verbatim>\<open>String(x?.type || ...)\<close> raises on the first element whose \<^verbatim>\<open>type\<close> cannot be
  converted, \<open>None\<close> means that the list was rendered.
\<close>

definition renderPreview :: "jsval \<Rightarrow> js_error option" where
  "renderPreview analysisPreview =
     (case analysisPreview of
        Arr xs \<Rightarrow>
          if list_ex (\<lambda>x. truthy (get x (js ''type'')) \<and> js_String (get x (js ''type'')) = None) xs
          then Some cannot_convert else None
      | _ \<Rightarrow> None)"

text \<open>
  \<^verbatim>\<open>showApprovalIfNeeded\<close>: \<open>Some e\<close> is the exception that leaves it, raised by the
  assignment of the question to \<^verbatim>\<open>textContent\<close> or by \<^verbatim>\<open>renderPreview\<close>, after the
  phase has been set and the card shown.
\<close>

definition showApprovalIfNeeded :: "env \<Rightarrow> jsval \<Rightarrow> app \<Rightarrow> js_error option \<times> app" where
  "showApprovalIfNeeded E payload st =
     (if \<not> truthy payload then (None, st)
      else if uiState st = WaitingApproval then (None, st)
      else
        let st1 = (setUiState WaitingApproval st)\<lparr>approvalShown := True\<rparr>
        in case js_String (js_or (get payload (js ''question'')) (Str (js ''Approve?''))) of
             None \<Rightarrow> (Some cannot_convert, st1)
           | Some q \<Rightarrow>
               (case renderPreview (js_or (get payload (js ''analysis_preview'')) (Arr [])) of
                  Some e \<Rightarrow> (Some e, st1\<lparr>question := q, preview := Undefined\<rparr>)
                | None \<Rightarrow>
                    (None,
                     addLogEntry
                       \<lparr> a_tag = js ''HITL'',
                         a_agent = agent_text (NODE_LABEL (js ''human_approval'')),
                         a_summary = js ''Awaiting approval (user input required).'',
                         a_detail = stringify2 E payload, a_raw = payload \<rparr>
                       (st1\<lparr>question := q,
                            preview := js_or (get payload (js ''analysis_preview'')) (Arr [])\<rparr>))))"

text \<open>
  The second half of \<^verbatim>\<open>handleSseEvent\<close>, from the comment
  \<^verbatim>\<open>updates: readable "result" log entries\<close> to the end, in the order of the source.
  \<open>rawd\<close> and \<open>eventName\<close> are \<^verbatim>\<open>raw\<close> and \<^verbatim>\<open>eventName\<close>.
\<close>

definition log_sse_event :: "env \<Rightarrow> jsval \<Rightarrow> jstring \<Rightarrow> app \<Rightarrow> js_error option \<times> app" where
  "log_sse_event E rawd eventName st1 =
     (let is_obj = (truthy rawd \<and> typeof rawd = ''object'');
          nodeKey = (if eventName = js ''updates'' then pickNodeKeyFromUpdates rawd else [])
      in if nodeKey \<noteq> [] then
           (let nodeState = get (updates_root rawd) nodeKey;
                text = extractReadableOutputFromNodeState E (js_or nodeState (Obj []))
            in (None,
                addLogEntry
                  \<lparr> a_tag = js ''AGENT'',
                    a_agent = agent_text (js_or (NODE_LABEL nodeKey) (Str nodeKey)),
                    a_summary = (if truncate text 140 \<noteq> [] then truncate text 140 else js ''(updated)''),
                    a_detail = (if text \<noteq> [] then text else js ''(updated)''),
                    a_raw = rawd \<rparr> st1))
         else if eventName = js ''updates'' \<and> \<not> SHOW_NOISY_SSE then (None, st1)
         else if eventName = js ''values'' then
           (let cur = get (get rawd (js ''values'')) (js ''current_step'')
            in case (if truthy cur then js_String cur else Some []) of
                 None \<Rightarrow> (Some cannot_convert, st1)
               | Some current \<Rightarrow>
                   if current \<noteq> [] then
                     (None,
                      addLogEntry
                        \<lparr> a_tag = js ''STATE'',
                          a_agent = agent_text (js_or (NODE_LABEL current) (Str current)),
                          a_summary = js ''State updated (values).'',
                          a_detail = stringify2 E (js_coalesce (get rawd (js ''values'')) rawd),
                          a_raw = rawd \<rparr> st1)
                   else if \<not> SHOW_NOISY_SSE then (None, st1)
                   else
                     (None,
                      addLogEntry
                        \<lparr> a_tag = js ''STATE'', a_agent = [],
                          a_summary = js ''State updated (values).'',
                          a_detail = stringify2 E rawd, a_raw = rawd \<rparr> st1))
         else if \<not> SHOW_NOISY_SSE then (None, st1)
         else
           (let asText = (case rawd of Str t \<Rightarrow> t | _ \<Rightarrow> stringify E rawd)
            in (None,
                addLogEntry
                  \<lparr> a_tag = (if eventName \<noteq> [] then js ''SSE:'' @ eventName else js ''SSE''),
                    a_agent = [],
                    a_summary = (if truncate asText 140 \<noteq> [] then truncate asText 140 else js ''(SSE)''),
                    a_detail = (case rawd of Str t \<Rightarrow> t | _ \<Rightarrow> stringify2 E rawd),
                    a_raw = (if is_obj then rawd else Null) \<rparr> st1)))"

text \<open>
  \<^verbatim>\<open>handleSseEvent\<close>, in the order of the source. Every \<^verbatim>\<open>return\<close> of the source is
  one of the branches that end with \<open>None\<close> and the state; \<open>Some e\<close> is the exception that
  leaves the function: of \<^verbatim>\<open>extractInterruptPayload\<close>, of \<^verbatim>\<open>showApprovalIfNeeded\<close>,
  or of \<^verbatim>\<open>String(valuesObj.current_step)\<close>.
\<close>

definition handleSseEvent :: "env \<Rightarrow> frame \<Rightarrow> app \<Rightarrow> js_error option \<times> app" where
  "handleSseEvent E ev st0 =
     (let rawd = f_data ev;
          eventName = f_event ev;
          st = setStatus st0;
          is_obj = (truthy rawd \<and> typeof rawd = ''object'')
      in case (if is_obj then extractInterruptPayload rawd else Inr Null) of
           Inl e \<Rightarrow> (Some e, st)
         | Inr interruptPayload \<Rightarrow>
             if is_obj \<and> truthy interruptPayload then showApprovalIfNeeded E interruptPayload st
             else if \<not> SHOW_NOISY_SSE
                     \<and> (eventName = js ''metadata'' \<or> eventName = js ''ping'' \<or> eventName = js ''keepalive'')
             then (None, st)
             else
               let valuesObj = (if truthy (get rawd (js ''values''))
                                   \<and> typeof (get rawd (js ''values'')) = ''object''
                                then get rawd (js ''values'') else Null)
               in case (if is_obj \<and> truthy (get valuesObj (js ''current_step''))
                        then js_String (get valuesObj (js ''current_step'')) else Some []) of
                    None \<Rightarrow> (Some cannot_convert, st)
                  | Some step \<Rightarrow>
                      let st1 = (if step \<noteq> [] then setWork step st else st);
                          stepFromUpdates =
                            (if eventName = js ''updates'' \<and> is_obj
                             then pickCurrentStepFromUpdates rawd else [])
                      in if stepFromUpdates \<noteq> [] then (None, setWork stepFromUpdates st1)
                         else log_sse_event E rawd eventName st1)"

section \<open>The streaming client: transport and run logic\<close>

text \<open>
  What the server answers to \<^verbatim>\<open>fetch\<close>: the call fails (no connection, abort), or a
  response arrives with \<^verbatim>\<open>ok\<close>, \<^verbatim>\<open>status\<close>, the body as \<^verbatim>\<open>res.text()\<close> gives it and
  as \<^verbatim>\<open>res.json()\<close> gives it (an exception when the body is not JSON).
\<close>

datatype http_result =
    FetchFails js_error
  | Response bool nat jstring "js_error + jsval"

text \<open>
  The answer to the streaming call: after the headers come the chunks of text and then
  the end of the body, or an exception of \<^verbatim>\<open>reader.read()\<close> (an abort, a broken
  connection) after the chunks read so far.
\<close>

datatype stream_result =
    StreamFetchFails js_error
  | StreamResponse bool nat jstring jstring "jstring list" "js_error option"

definition createThread :: "http_result \<Rightarrow> js_error + jsval" where
  "createThread resp =
     (case resp of
        FetchFails e \<Rightarrow> Inl e
      | Response ok status body_text body_json \<Rightarrow>
          if \<not> ok
          then Inl (new_Error (js ''thread create failed: '' @ string_of_nat status @ js '' '' @ body_text))
          else (case body_json of
                  Inl e \<Rightarrow> Inl e
                | Inr data \<Rightarrow>
                    if \<not> truthy (get data (js ''thread_id''))
                    then Inl (new_Error (js ''thread create response has no thread_id''))
                    else Inr (get data (js ''thread_id''))))"

text \<open>
  \<^verbatim>\<open>ensureThreadIdFromServer\<close>: the identifier in use is returned without a request
  unless \<^verbatim>\<open>forceNew\<close> is set or there is none; otherwise a thread is created and its
  identifier is assigned to \<^verbatim>\<open>threadId\<close>, then written to \<^verbatim>\<open>localStorage\<close>, then
  logged. The write converts the identifier to a string; when that raises, the
  assignment has taken place, and the write and the log entry have not.
\<close>

definition ensureThreadIdFromServer :: "bool \<Rightarrow> http_result \<Rightarrow> app \<Rightarrow> (js_error + jsval) \<times> app" where
  "ensureThreadIdFromServer forceNew createResp st =
     (if \<not> forceNew \<and> truthy (threadId st) then (Inr (threadId st), st)
      else
        let st1 = st\<lparr>requests := requests st @ [PostThreads]\<rparr>
        in case createThread createResp of
             Inl e \<Rightarrow> (Inl e, st1)
           | Inr ident \<Rightarrow>
               (case js_String ident of
                  None \<Rightarrow> (Inl cannot_convert, st1\<lparr>threadId := ident\<rparr>)
                | Some t \<Rightarrow>
                    (Inr ident,
                     addLogEntry
                       (log3 (js ''THREAD'') (js ''Created: thread_id='' @ t)
                          (js ''Created: thread_id='' @ t))
                       (st1\<lparr>threadId := ident, stored_tid := Some t\<rparr>))))"

text \<open>
  \<^verbatim>\<open>getThread\<close>; the template string of the address converts \<open>tid\<close> before the
  request is sent.
\<close>

definition getThread :: "jsval \<Rightarrow> http_result \<Rightarrow> app \<Rightarrow> (js_error + jsval) \<times> app" where
  "getThread tid resp st =
     (case js_String tid of
        None \<Rightarrow> (Inl cannot_convert, st)
      | Some t \<Rightarrow>
          let st1 = st\<lparr>requests := requests st @ [GetThread t]\<rparr>
          in case resp of
               FetchFails e \<Rightarrow> (Inl e, st1)
             | Response ok status body_text body_json \<Rightarrow>
                 if \<not> ok
                 then (Inl (new_Error (js ''get thread failed: '' @ string_of_nat status @ js '' '' @ body_text)), st1)
                 else (body_json, st1))"

text \<open>
  The calls of \<^verbatim>\<open>onEvent\<close> in \<^verbatim>\<open>runStream\<close>, one frame after the other; an exception
  of a call ends the loop and leaves \<^verbatim>\<open>runStream\<close>.
\<close>

fun handle_frames :: "env \<Rightarrow> frame list \<Rightarrow> app \<Rightarrow> js_error option \<times> app" where
  "handle_frames E [] st = (None, st)"
| "handle_frames E (ev # evs) st =
     (case handleSseEvent E ev st of
        (Some e, st1) \<Rightarrow> (Some e, st1)
      | (None, st1) \<Rightarrow> handle_frames E evs st1)"

text \<open>
  \<^verbatim>\<open>runStream\<close>. The frames reach \<^verbatim>\<open>onEvent\<close>, which is \<^verbatim>\<open>handleSseEvent\<close> at both
  call sites, in the order in which \<open>feed\<close> yields them; the count of events is their
  number. \<open>Some e\<close> is the exception that leaves \<^verbatim>\<open>runStream\<close>. The cancelling of a
  stream that is still open when another begins belongs to two operations overlapping in
  time and is not modelled: an operation runs to its end.
\<close>

definition runStream :: "env \<Rightarrow> jsval \<Rightarrow> run_body \<Rightarrow> stream_result \<Rightarrow> app \<Rightarrow> js_error option \<times> app" where
  "runStream E tid body sr st =
     (case js_String tid of
        None \<Rightarrow> (Some cannot_convert, st)
      | Some t \<Rightarrow>
          let st1 = st\<lparr>requests := requests st @ [PostRunStream t body]\<rparr>
          in case sr of
               StreamFetchFails e \<Rightarrow> (Some e, st1)
             | StreamResponse ok status body_text contentType chunks readError \<Rightarrow>
                 if \<not> ok
                 then (Some (new_Error (js ''runs/stream failed: '' @ string_of_nat status @ js '' '' @ body_text)), st1)
                 else
                   let st2 = (if SHOW_NOISY_SSE
                              then addLogEntry
                                     (log3 (js ''HTTP'') (js ''runs/stream content-type='' @ contentType)
                                        (js ''runs/stream content-type='' @ contentType)) st1
                              else st1);
                       evs = feed (jsonParse E) [] chunks
                   in case handle_frames E evs st2 of
                        (Some e, st3) \<Rightarrow> (Some e, st3)
                      | (None, st3) \<Rightarrow>
                          (case readError of
                             Some e \<Rightarrow> (Some e, st3)
                           | None \<Rightarrow>
                               (None,
                                if length evs = 0
                                then addLogEntry
                                       (log3 (js ''WARN'') (js ''No SSE events were received.'')
                                          (js ''No SSE events were received. The server may not be emitting SSE, buffering may be occurring, or a proxy could be interfering.''))
                                       st3
                                else st3)))"

definition resetViewForRun :: "app \<Rightarrow> app" where
  "resetViewForRun st = (setError [] st)\<lparr>approvalShown := False, reportShown := False, statusShown := True\<rparr>"

text \<open>
  The end of \<^verbatim>\<open>start\<close> and of \<^verbatim>\<open>resume\<close> once the snapshot has been fetched; the two
  copies in the source differ in the text shown when there is no report.
\<close>

definition after_stream :: "env \<Rightarrow> jstring \<Rightarrow> jsval \<Rightarrow> app \<Rightarrow> js_error option \<times> app" where
  "after_stream E placeholder threadObj st =
     (case extractInterruptPayload threadObj of
        Inl e \<Rightarrow> (Some e, st)
      | Inr payload \<Rightarrow>
          (case extractCurrentStepFromThread threadObj of
             Inl e \<Rightarrow> (Some e, st)
           | Inr currentStep \<Rightarrow>
               let st1 = (if currentStep \<noteq> [] then setWork currentStep st else st)
               in if truthy payload then
                    (case showApprovalIfNeeded E payload st1 of
                       (Some e, st2) \<Rightarrow> (Some e, st2)
                     | (None, st2) \<Rightarrow> (None, setStatus st2))
                  else
                    let report = extractFinalReportFromThread threadObj
                    in if report = [] then
                         (None,
                          addLogEntry
                            (log3 (js ''DONE'') (js ''Done (no final report)'') (js ''Done (no final report)''))
                            (setStatus ((setUiState Done st1)\<lparr>reportShown := True, reportText := placeholder\<rparr>)))
                       else
                         (None,
                          addLogEntry
                            (log3 (js ''DONE'') (js ''Done (final report generated)'')
                               (js ''Done (final report generated)''))
                            (setStatus ((setUiState Done st1)\<lparr>reportShown := True, reportText := report\<rparr>)))))"

definition start_placeholder :: jstring where
  "start_placeholder =
     js ''(The final report has not been generated yet. If you were not prompted for approval, check the server logs.)''"

definition resume_placeholder :: jstring where
  "resume_placeholder = js ''(The final report has not been generated yet.)''"

text \<open>
  \<^verbatim>\<open>start\<close> and \<^verbatim>\<open>resume\<close>, given the topic or the decision and the answers of the
  server to the requests they may send. The result is the exception that leaves the
  function, if any, and the state then. The template string of the log entry converts
  the identifier.
\<close>

definition start :: "env \<Rightarrow> jstring \<Rightarrow> http_result \<Rightarrow> stream_result \<Rightarrow> http_result \<Rightarrow> app \<Rightarrow> js_error option \<times> app" where
  "start E theme createResp streamResp threadResp st =
     (case ensureThreadIdFromServer True createResp (resetViewForRun st) of
        (Inl e, st1) \<Rightarrow> (Some e, st1)
      | (Inr tid, st1) \<Rightarrow>
          let st2 = setStatus (setUiState Starting (setWork (js ''-'') st1))
          in case js_String tid of
               None \<Rightarrow> (Some cannot_convert, st2)
             | Some t \<Rightarrow>
                 let st3 = addLogEntry
                             (log3 (js ''START'') (js ''Started: '' @ [34] @ theme @ [34])
                                (js ''Started: '' @ [34] @ theme @ [34] @ js '' / thread_id='' @ t))
                             st2
                 in case runStream E tid (StartInput theme) streamResp st3 of
                      (Some e, st4) \<Rightarrow> (Some e, st4)
                    | (None, st4) \<Rightarrow>
                        (case getThread tid threadResp st4 of
                           (Inl e, st5) \<Rightarrow> (Some e, st5)
                         | (Inr threadObj, st5) \<Rightarrow> after_stream E start_placeholder threadObj st5))"

definition resume :: "env \<Rightarrow> jstring \<Rightarrow> http_result \<Rightarrow> stream_result \<Rightarrow> http_result \<Rightarrow> app \<Rightarrow> js_error option \<times> app" where
  "resume E decision createResp streamResp threadResp st =
     (case ensureThreadIdFromServer False createResp (resetViewForRun st) of
        (Inl e, st1) \<Rightarrow> (Some e, st1)
      | (Inr tid, st1) \<Rightarrow>
          let st2 = setStatus (setUiState Resuming st1)
          in case js_String tid of
               None \<Rightarrow> (Some cannot_convert, st2)
             | Some t \<Rightarrow>
                 let st3 = addLogEntry
                             (log3 (js ''RESUME'') (js ''Input: '' @ decision)
                                (js ''Input: '' @ decision @ js '' / thread_id='' @ t))
                             st2
                 in case runStream E tid (ResumeCommand decision) streamResp st3 of
                      (Some e, st4) \<Rightarrow> (Some e, st4)
                    | (None, st4) \<Rightarrow>
                        (case getThread tid threadResp st4 of
                           (Inl e, st5) \<Rightarrow> (Some e, st5)
                         | (Inr threadObj, st5) \<Rightarrow> after_stream E resume_placeholder threadObj st5))"

text \<open>\<^verbatim>\<open>runWithUi(fn)\<close>: the \<^verbatim>\<open>catch\<close> block is \<open>on_error\<close>.\<close>

definition on_error :: "js_error \<Rightarrow> app \<Rightarrow> app" where
  "on_error e st =
     (let msg = error_text e
      in addLogEntry (log3 (js ''ERROR'') msg msg) (setStatus (setError msg (setUiState Error st))))"

definition runWithUi :: "(app \<Rightarrow> js_error option \<times> app) \<Rightarrow> app \<Rightarrow> app" where
  "runWithUi fn st =
     (case fn (setError [] st) of
        (None, st1) \<Rightarrow> st1
      | (Some e, st1) \<Rightarrow> on_error e st1)"

text \<open>The three decision buttons call \<^verbatim>\<open>handleDecision\<close> with \<^verbatim>\<open>y\<close>, \<^verbatim>\<open>retry\<close>, \<^verbatim>\<open>n\<close>.\<close>

definition handleDecision :: "env \<Rightarrow> jstring \<Rightarrow> http_result \<Rightarrow> stream_result \<Rightarrow> http_result \<Rightarrow> app \<Rightarrow> app" where
  "handleDecision E decision createResp streamResp threadResp st =
     runWithUi (resume E decision createResp streamResp threadResp) (setUiState Resuming st)"


text \<open>
  \<^verbatim>\<open>restoreThreadId\<close>: \<^verbatim>\<open>saved || null\<close>, that is a string that is not empty, or
  \<^verbatim>\<open>null\<close>.
\<close>

definition restoreThreadId :: "jstring option \<Rightarrow> jsval" where
  "restoreThreadId saved = (case saved of Some t \<Rightarrow> if t \<noteq> [] then Str t else Null | None \<Rightarrow> Null)"

text \<open>
  The \<^verbatim>\<open>try\<close> block of \<^verbatim>\<open>initAsync\<close> for the saved identifier \<open>t\<close>, a string, and
  its \<^verbatim>\<open>catch\<close> block.
\<close>

definition initAsync_try :: "env \<Rightarrow> jstring \<Rightarrow> http_result \<Rightarrow> app \<Rightarrow> js_error option \<times> app" where
  "initAsync_try E t threadResp st =
     (case getThread (Str t) threadResp st of
        (Inl e, st2) \<Rightarrow> (Some e, st2)
      | (Inr threadObj, st2) \<Rightarrow>
          (case extractInterruptPayload threadObj of
             Inl e \<Rightarrow> (Some e, st2)
           | Inr payload \<Rightarrow>
               (case extractCurrentStepFromThread threadObj of
                  Inl e \<Rightarrow> (Some e, st2)
                | Inr currentStep \<Rightarrow>
                    let st3 = (if currentStep \<noteq> [] then setWork currentStep st2 else st2)
                    in if truthy payload then
                         (let st4 = (setUiState WaitingApproval
                                       (addLogEntry
                                          (log3 (js ''UI'')
                                             (js ''Restored: awaiting approval (thread_id='' @ t @ js '')'')
                                             (js ''Restored: awaiting approval (thread_id='' @ t @ js '')''))
                                          (st3\<lparr>threadId := Str t\<rparr>)))
                                      \<lparr>approvalShown := True\<rparr>
                          in case js_String (js_or (get payload (js ''question'')) (Str (js ''Approve?''))) of
                               None \<Rightarrow> (Some cannot_convert, st4)
                             | Some q \<Rightarrow>
                                 (case renderPreview (js_or (get payload (js ''analysis_preview'')) (Arr [])) of
                                    Some e \<Rightarrow> (Some e, st4\<lparr>question := q, preview := Undefined\<rparr>)
                                  | None \<Rightarrow>
                                      (None,
                                       setStatus
                                         (st4\<lparr>question := q,
                                              preview := js_or (get payload (js ''analysis_preview'')) (Arr [])\<rparr>))))
                       else
                         (None,
                          addLogEntry
                            (log3 (js ''UI'') (js ''Discarded previous thread (not awaiting approval).'')
                               (js ''Discarded previous thread (not awaiting approval): thread_id='' @ t))
                            (st3\<lparr>stored_tid := None\<rparr>)))))"

definition initAsync_catch :: "js_error \<Rightarrow> app \<Rightarrow> app" where
  "initAsync_catch e st =
     addLogEntry
       (log3 (js ''WARN'') (js ''Failed to verify saved thread '' @ [8594] @ js '' discarded.'')
          (js ''Failed to verify saved thread, so it was discarded: '' @ error_text e))
       (st\<lparr>stored_tid := None\<rparr>)"

text \<open>\<^verbatim>\<open>initAsync\<close>, run once when the script has been loaded.\<close>

definition initAsync :: "env \<Rightarrow> http_result \<Rightarrow> app \<Rightarrow> app" where
  "initAsync E threadResp st =
     (let st1 = addLogEntry
                  (log3 (js ''UI'') (js ''App loaded. API: '' @ API_BASE E)
                     (js ''App loaded. API: '' @ API_BASE E))
                  (setWork (js ''-'') (setUiState Idle st))
      in case restoreThreadId (stored_tid st1) of
           Str t \<Rightarrow>
             (case initAsync_try E t threadResp st1 of
                (None, st2) \<Rightarrow> st2
              | (Some e, st2) \<Rightarrow> initAsync_catch e st2)
         | _ \<Rightarrow> st1)"

section \<open>The request/response client: run logic\<close>

text \<open>
  \<^verbatim>\<open>ensureThreadId\<close>: the identifier in use, or else a new one from
  \<^verbatim>\<open>crypto.randomUUID()\<close> (or the fallback built from \<^verbatim>\<open>Math.random\<close> and the clock),
  which is the argument \<open>fresh\<close>.
\<close>

definition ensureThreadId :: "jstring \<Rightarrow> ls_app \<Rightarrow> jsval \<times> ls_app" where
  "ensureThreadId fresh st =
     (if truthy (ls_threadId st) then (ls_threadId st, st)
      else (Str fresh, st\<lparr>ls_threadId := Str fresh, ls_stored_tid := Some fresh\<rparr>))"

text \<open>
  The answer to \<^verbatim>\<open>fetch\<close> in \<^verbatim>\<open>callInvoke\<close>. With a failure comes the reason that
  \<^verbatim>\<open>abortReasons\<close> holds for the controller of the call, if any.
\<close>

datatype ls_result =
    LsFetchFails js_error "jstring option"
  | LsResponse bool nat jstring "js_error + jsval"

text \<open>
  \<^verbatim>\<open>callInvoke\<close>. \<^verbatim>\<open>new Error(m)\<close> converts \<open>m\<close> to a string; an exception of that
  conversion is not an abort and is raised again by the \<^verbatim>\<open>catch\<close> block.
\<close>

definition callInvoke :: "env \<Rightarrow> ls_result \<Rightarrow> js_error + jsval" where
  "callInvoke E resp =
     (case resp of
        LsFetchFails e reason \<Rightarrow>
          if e_name e = js ''AbortError'' then
            (if reason = Some (js ''timeout'') then
               Inl (new_Error (js ''Request aborted due to a frontend timeout. Increase or disable REQUEST_TIMEOUT_MS.''))
             else if reason = Some (js ''user'') then
               Inl (new_Error (js ''Request aborted by the user.''))
             else if reason = Some (js ''superseded'') then
               Inl (new_Error (js ''Previous request aborted (a newer action took precedence).''))
             else Inl (new_Error (js ''Request was aborted.'')))
          else Inl e
      | LsResponse ok status body_text body_json \<Rightarrow>
          if \<not> ok then
            (let maybe = (case jsonParse E body_text of Some v \<Rightarrow> v | None \<Rightarrow> Null);
                 d = get maybe (js ''detail'')
             in if truthy d
                then (case js_String d of
                        Some m \<Rightarrow> Inl (new_Error m)
                      | None \<Rightarrow> Inl cannot_convert)
                else Inl (new_Error (js ''API error: '' @ string_of_nat status @ js '' '' @ body_text)))
          else body_json)"

definition ls_setUiState :: "phase \<Rightarrow> ls_app \<Rightarrow> ls_app" where
  "ls_setUiState p st = st\<lparr>ls_uiState := p\<rparr>"

definition ls_setError :: "jstring \<Rightarrow> ls_app \<Rightarrow> ls_app" where
  "ls_setError message st =
     (if message = [] then st\<lparr>ls_errorText := []\<rparr>
      else st\<lparr>ls_statusShown := True, ls_errorText := message\<rparr>)"

definition ls_setStatus :: "ls_app \<Rightarrow> ls_app" where
  "ls_setStatus st = st\<lparr>ls_statusShown := True\<rparr>"

definition ls_resetViewForRun :: "ls_app \<Rightarrow> ls_app" where
  "ls_resetViewForRun st =
     (ls_setError [] st)\<lparr>ls_approvalShown := False, ls_reportShown := False, ls_statusShown := True\<rparr>"

text \<open>
  \<^verbatim>\<open>summarizeOutput\<close>; \<open>Inl\<close> is the exception of a conversion inside one of its
  template strings.
\<close>

definition summarizeOutput :: "jsval \<Rightarrow> ls_app \<Rightarrow> js_error + jstring" where
  "summarizeOutput out st =
     (case (if truthy (get out (js ''status''))
            then map_option (\<lambda>t. js ''status='' @ t) (js_String (get out (js ''status'')))
            else Some (js ''status=?'')) of
        None \<Rightarrow> Inl cannot_convert
      | Some stt \<Rightarrow>
          (case (if truthy (get out (js ''thread_id''))
                 then map_option (\<lambda>t. js ''thread_id='' @ t) (js_String (get out (js ''thread_id'')))
                 else if truthy (ls_threadId st)
                      then map_option (\<lambda>t. js ''thread_id='' @ t) (js_String (ls_threadId st))
                      else Some []) of
             None \<Rightarrow> Inl cannot_convert
           | Some tid \<Rightarrow> Inr (stt @ (if tid \<noteq> [] then js '' / '' @ tid else []))))"

text \<open>
  Reading a property of \<^verbatim>\<open>null\<close> or \<^verbatim>\<open>undefined\<close> raises a \<^verbatim>\<open>TypeError\<close>, and so does
  \<^verbatim>\<open>renderPreview\<close> of this client on a preview that is not an array or that holds
  \<^verbatim>\<open>null\<close>. The message is the engine's; it is given as V8 prints it.
\<close>

definition cannot_read :: "jsval \<Rightarrow> string \<Rightarrow> js_error" where
  "cannot_read v prop =
     Err (js ''TypeError'')
       (js ''Cannot read properties of '' @ (if v = Null then js ''null'' else js ''undefined'')
        @ js '' (reading '' @ [39] @ js prop @ [39] @ js '')'')"

text \<open>
  The callback of \<^verbatim>\<open>forEach\<close> in \<^verbatim>\<open>renderPreview\<close> of this client over the elements
  in order: \<open>Some e\<close> is the exception of the first element on which it raises.
\<close>

fun ls_preview_items :: "jsval list \<Rightarrow> js_error option" where
  "ls_preview_items [] = None"
| "ls_preview_items (x # xs) =
     (if nullish x then Some (cannot_read x ''type'')
      else if js_String (js_or (get x (js ''type'')) (Str (js ''Message''))) = None
      then Some cannot_convert
      else if js_String (js_or (get x (js ''content'')) (Str [])) = None
      then Some cannot_convert
      else ls_preview_items xs)"

definition ls_renderPreview :: "jsval \<Rightarrow> js_error option" where
  "ls_renderPreview analysisPreview =
     (case js_or analysisPreview (Arr []) of
        Arr xs \<Rightarrow> ls_preview_items xs
      | _ \<Rightarrow> Some (Err (js ''TypeError'') (js ''(analysisPreview || []).forEach is not a function'')))"

text \<open>
  \<^verbatim>\<open>if (out?.thread_id) { threadId = out.thread_id; persistThreadId(threadId); }\<close>:
  the write to \<^verbatim>\<open>localStorage\<close> converts the identifier, after the assignment.
\<close>

definition adopt_thread_id :: "jsval \<Rightarrow> ls_app \<Rightarrow> js_error option \<times> ls_app" where
  "adopt_thread_id out st =
     (if truthy (get out (js ''thread_id'')) then
        (case js_String (get out (js ''thread_id'')) of
           None \<Rightarrow> (Some cannot_convert, st\<lparr>ls_threadId := get out (js ''thread_id'')\<rparr>)
         | Some t \<Rightarrow> (None, st\<lparr>ls_threadId := get out (js ''thread_id''), ls_stored_tid := Some t\<rparr>))
      else (None, st))"

text \<open>
  What \<^verbatim>\<open>start\<close> and \<^verbatim>\<open>resume\<close> of this client do with the answer; \<open>what\<close> is
  \<^verbatim>\<open>start\<close> or \<^verbatim>\<open>resume\<close>, and \<open>hitl\<close> the text of the log entry of an interrupt.
\<close>

definition ls_after_invoke :: "string \<Rightarrow> jstring \<Rightarrow> jsval \<Rightarrow> ls_app \<Rightarrow> js_error option \<times> ls_app" where
  "ls_after_invoke what hitl data st =
     (if nullish data then (Some (cannot_read data ''output''), st)
      else
        let out = get data (js ''output'')
        in case adopt_thread_id out st of
             (Some e, st1) \<Rightarrow> (Some e, st1)
           | (None, st1) \<Rightarrow>
               let st2 = ls_setStatus st1
               in case summarizeOutput out st2 of
                    Inl e \<Rightarrow> (Some e, st2)
                  | Inr s \<Rightarrow>
                      let st3 = addLog (js ''API'') (js what @ js '' response: '' @ s) st2
                      in if nullish out then (Some (cannot_read out ''status''), st3)
                         else if get out (js ''status'') = Str (js ''interrupted'') then
                           (let st4 = (ls_setUiState WaitingApproval st3)\<lparr>ls_approvalShown := True\<rparr>
                            in case js_String (js_or (get (get out (js ''interrupt'')) (js ''question''))
                                                 (Str (js ''Do you approve?''))) of
                                 None \<Rightarrow> (Some cannot_convert, st4)
                               | Some q \<Rightarrow>
                                   (case ls_renderPreview (get (get out (js ''interrupt'')) (js ''analysis_preview'')) of
                                      Some e \<Rightarrow> (Some e, st4\<lparr>ls_question := q, ls_preview := Undefined\<rparr>)
                                    | None \<Rightarrow>
                                        (None,
                                         addLog (js ''HITL'') hitl
                                           (st4\<lparr>ls_question := q,
                                                ls_preview := js_or (get (get out (js ''interrupt'')) (js ''analysis_preview'')) (Arr [])\<rparr>))))
                         else
                           let st4 = st3\<lparr>ls_approvalShown := False\<rparr>
                           in if get out (js ''status'') = Str (js ''completed'') then
                                (case js_String (js_or (get out (js ''report'')) (Str [])) of
                                   None \<Rightarrow>
                                     (Some cannot_convert, (ls_setUiState Done st4)\<lparr>ls_reportShown := True\<rparr>)
                                 | Some r \<Rightarrow>
                                     (None,
                                      addLog (js ''DONE'') (js ''Completed (report generated).'')
                                        ((ls_setUiState Done st4)\<lparr>ls_reportShown := True, ls_reportText := r\<rparr>)))
                              else
                                (None,
                                 addLog (js ''ERROR'') (js ''Unexpected response format ('' @ js what @ js '').'')
                                   (ls_setError (js ''Unexpected response format. Please check the '' @ [39] @ js ''status'' @ [39] @ js '' field.'')
                                      (ls_setUiState Error st4))))"

text \<open>
  \<^verbatim>\<open>start\<close> and \<^verbatim>\<open>resume\<close> of this client. The template string of the first log
  entry converts the identifier before the request is sent.
\<close>

definition ls_start :: "env \<Rightarrow> jstring \<Rightarrow> jstring \<Rightarrow> ls_result \<Rightarrow> ls_app \<Rightarrow> js_error option \<times> ls_app" where
  "ls_start E theme fresh resp st =
     (case ensureThreadId fresh (ls_resetViewForRun st) of
        (tid, st1) \<Rightarrow>
          let st2 = ls_setStatus (ls_setUiState Starting st1)
          in case js_String tid of
               None \<Rightarrow> (Some cannot_convert, st2)
             | Some t \<Rightarrow>
                 let st3 = addLog (js ''START'')
                             (js ''Started: '' @ [34] @ theme @ [34] @ js '' / thread_id='' @ t) st2;
                     st4 = st3\<lparr>ls_requests := ls_requests st3 @ [Invoke (js ''start'') tid theme]\<rparr>
                 in case callInvoke E resp of
                      Inl e \<Rightarrow> (Some e, st4)
                    | Inr data \<Rightarrow>
                        ls_after_invoke ''start''
                          (js ''Waiting for approval (please respond using the buttons).'') data st4)"

definition ls_resume :: "env \<Rightarrow> jstring \<Rightarrow> jstring \<Rightarrow> ls_result \<Rightarrow> ls_app \<Rightarrow> js_error option \<times> ls_app" where
  "ls_resume E decision fresh resp st =
     (case (if truthy (ls_threadId (ls_resetViewForRun st))
            then (ls_threadId (ls_resetViewForRun st), ls_resetViewForRun st)
            else ensureThreadId fresh (ls_resetViewForRun st)) of
        (tid, st1) \<Rightarrow>
          if \<not> truthy tid then
            (None,
             addLog (js ''ERROR'') (js ''Cannot resume because thread_id is missing.'')
               (ls_setError (js ''Missing thread_id. Click '' @ [39] @ js ''Run'' @ [39] @ js '' first.'')
                  (ls_setUiState Error st1)))
          else
            let st2 = ls_setStatus (ls_setUiState Resuming st1)
            in case js_String tid of
                 None \<Rightarrow> (Some cannot_convert, st2)
               | Some t \<Rightarrow>
                   let st3 = addLog (js ''RESUME'')
                               (js ''Input: '' @ decision @ js '' / thread_id='' @ t) st2;
                       st4 = st3\<lparr>ls_requests := ls_requests st3 @ [Invoke (js ''resume'') tid decision]\<rparr>
                   in case callInvoke E resp of
                        Inl e \<Rightarrow> (Some e, st4)
                      | Inr data \<Rightarrow> ls_after_invoke ''resume'' (js ''Waiting for approval again.'') data st4)"

definition ls_on_error :: "js_error \<Rightarrow> ls_app \<Rightarrow> ls_app" where
  "ls_on_error e st =
     (let msg = error_text e
      in addLog (js ''ERROR'') msg (ls_setStatus (ls_setError msg (ls_setUiState Error st))))"

definition ls_runWithUi :: "(ls_app \<Rightarrow> js_error option \<times> ls_app) \<Rightarrow> ls_app \<Rightarrow> ls_app" where
  "ls_runWithUi fn st =
     (case fn (ls_setError [] st) of
        (None, st1) \<Rightarrow> st1
      | (Some e, st1) \<Rightarrow> ls_on_error e st1)"

definition ls_handleDecision :: "env \<Rightarrow> jstring \<Rightarrow> jstring \<Rightarrow> ls_result \<Rightarrow> ls_app \<Rightarrow> ls_app" where
  "ls_handleDecision E decision fresh resp st =
     ls_runWithUi (ls_resume E decision fresh resp) (ls_setUiState Resuming st)"


text \<open>
  \<^verbatim>\<open>init\<close> of this client, run once when the script has been loaded; the saved
  identifier is a string that is not empty, or \<^verbatim>\<open>null\<close>.
\<close>

definition ls_init :: "ls_app \<Rightarrow> ls_app" where
  "ls_init st =
     (let st1 = (case restoreThreadId (ls_stored_tid st) of
                   Str t \<Rightarrow> addLog (js ''UI'') (js ''Restored: thread_id='' @ t) (st\<lparr>ls_threadId := Str t\<rparr>)
                 | _ \<Rightarrow> st)
      in addLog (js ''UI'') (js ''Ready.'') (ls_setUiState Idle st1))"

section \<open>Predicates of the properties\<close>

text \<open>The part of the state that the handling of a frame leaves alone.\<close>

definition keeps :: "app \<Rightarrow> app \<Rightarrow> bool" where
  "keeps st st' \<longleftrightarrow>
     threadId st' = threadId st \<and> stored_tid st' = stored_tid st \<and> requests st' = requests st
     \<and> reportShown st' = reportShown st \<and> reportText st' = reportText st
     \<and> errorText st' = errorText st \<and> clock st' = clock st"

text \<open>
  An interrupt payload whose question and preview can be shown: neither the conversion
  of the question nor \<^verbatim>\<open>renderPreview\<close> raises.
\<close>

definition approval_renders :: "jsval \<Rightarrow> bool" where
  "approval_renders payload \<longleftrightarrow>
     js_String (js_or (get payload (js ''question'')) (Str (js ''Approve?''))) \<noteq> None
     \<and> renderPreview (js_or (get payload (js ''analysis_preview'')) (Arr [])) = None"

text \<open>
  A frame that \<^verbatim>\<open>handleSseEvent\<close> handles without an exception in every state: its
  payload is no object, or the search for an interrupt in it does not raise and either
  finds an interrupt that can be shown or finds none and the \<^verbatim>\<open>current_step\<close> of the
  \<^verbatim>\<open>values\<close> of the payload can be converted.
\<close>

definition frame_safe :: "frame \<Rightarrow> bool" where
  "frame_safe ev \<longleftrightarrow>
     (if truthy (f_data ev) \<and> typeof (f_data ev) = ''object'' then
        (case extractInterruptPayload (f_data ev) of
           Inl e \<Rightarrow> False
         | Inr p \<Rightarrow>
             if truthy p then approval_renders p
             else js_String (get (get (f_data ev) (js ''values'')) (js ''current_step'')) \<noteq> None)
      else True)"


text \<open>
  The request/response client: the part of the state that the showing of an answer
  leaves alone, the identifier that a start sends, the failure of a call
  (no answer, an answer that is not successful, a status that is neither
  \<^verbatim>\<open>interrupted\<close> nor \<^verbatim>\<open>completed\<close>), and the identifier that the answer carries.
\<close>

definition ls_keeps :: "ls_app \<Rightarrow> ls_app \<Rightarrow> bool" where
  "ls_keeps st st' \<longleftrightarrow>
     ls_threadId st' = ls_threadId st \<and> ls_stored_tid st' = ls_stored_tid st
     \<and> ls_requests st' = ls_requests st"

definition ls_tid0 :: "jstring \<Rightarrow> ls_app \<Rightarrow> jsval" where
  "ls_tid0 fresh st = (if truthy (ls_threadId st) then ls_threadId st else Str fresh)"



text \<open>An environment and answers of the server for the examples.\<close>

definition example_env :: env where
  "example_env = \<lparr> jsonParse = (\<lambda>_. None), stringify2 = (\<lambda>_. []), stringify = (\<lambda>_. []), API_BASE = [] \<rparr>"

definition example_created :: http_result where
  "example_created = Response True 200 [] (Inr (Obj [(js ''thread_id'', Str (js ''t1''))]))"

definition example_chunks :: "jstring list" where
  "example_chunks = [js ''data: 1'' @ [LF, LF]]"

definition example_stream :: stream_result where
  "example_stream = StreamResponse True 200 [] [] example_chunks None"

definition example_failure :: js_error where
  "example_failure = Err (js ''TypeError'') (js ''Failed to fetch'')"

definition example_payload :: jsval where
  "example_payload = Obj [(js ''question'', Str (js ''Go?''))]"

definition example_interrupted :: jsval where
  "example_interrupted =
     Obj [(js ''values'', Obj [(js ''final_report'', Str (js ''Plan''))]),
          (js ''__interrupt__'', Arr [Obj [(js ''value'', example_payload)]])]"

definition example_reported :: jsval where
  "example_reported = Obj [(js ''values'', Obj [(js ''final_report'', Str (js ''Plan''))])]"

definition example_blank_report :: jsval where
  "example_blank_report = Obj [(js ''values'', Obj [(js ''final_report'', Str [32, 9, LF])])]"

definition example_marker_frame :: frame where
  "example_marker_frame =
     \<lparr> f_id = [], f_event = js ''updates'',
       f_data = Obj [(js ''research_start'', Obj [(js ''current_step'', Str (js ''research_agent''))])] \<rparr>"

definition example_marker_interrupt_frame :: frame where
  "example_marker_interrupt_frame =
     \<lparr> f_id = [], f_event = js ''updates'',
       f_data = Obj [(js ''research_start'', Obj [(js ''current_step'', Str (js ''research_agent''))]),
                     (js ''__interrupt__'', Arr [Obj [(js ''value'', example_payload)]])] \<rparr>"



section \<open>Literals\<close>

lemma js_eq_iff [simp]: "js a = js b \<longleftrightarrow> a = b"
  by (simp add: js_def inj_map_eq_map inj_of_char)

lemma js_Nil_iff [simp]: "js a = [] \<longleftrightarrow> a = []" "[] = js a \<longleftrightarrow> a = []"
  by (auto simp add: js_def)

section \<open>The log history\<close>

lemma unshift_capped_length: "length (unshift_capped x xs) \<le> 80"
  by (simp add: unshift_capped_def Let_def MAX_LOG_ITEMS_def)

lemma unshift_capped_hd: "unshift_capped x xs ! 0 = x"
  by (simp add: unshift_capped_def Let_def MAX_LOG_ITEMS_def)

lemma unshift_capped_below: "length xs < 80 \<Longrightarrow> unshift_capped x xs = x # xs"
  by (simp add: unshift_capped_def Let_def MAX_LOG_ITEMS_def)

lemma unshift_capped_full: "length xs = 80 \<Longrightarrow> unshift_capped x xs = x # butlast xs"
  by (simp add: unshift_capped_def Let_def MAX_LOG_ITEMS_def butlast_conv_take)

text \<open>
  Claim C8. After an append (\<^verbatim>\<open>addLogEntry\<close> in the streaming client, \<^verbatim>\<open>addLog\<close> in
  the request/response client) the history holds at most 80 entries and the new entry
  is at index 0; an append to a history of exactly 80 entries keeps the new entry
  followed by the old history without its last (oldest) entry, and an append to a
  shorter history drops nothing.
\<close>

theorem log_history_capped_newest_first:
  "length (logItems (addLogEntry a st)) \<le> 80
   \<and> logItems (addLogEntry a st) ! 0 = mk_log_item (clock st) a
   \<and> (length (logItems st) = 80 \<longrightarrow>
        logItems (addLogEntry a st) = mk_log_item (clock st) a # butlast (logItems st))
   \<and> (length (logItems st) < 80 \<longrightarrow>
        logItems (addLogEntry a st) = mk_log_item (clock st) a # logItems st)
   \<and> length (ls_logItems (addLog t m ls)) \<le> 80
   \<and> ls_logItems (addLog t m ls) ! 0 = \<lparr> ls_timeISO = ls_clock ls, ls_tag = t, ls_message = m \<rparr>
   \<and> (length (ls_logItems ls) = 80 \<longrightarrow>
        ls_logItems (addLog t m ls)
          = \<lparr> ls_timeISO = ls_clock ls, ls_tag = t, ls_message = m \<rparr> # butlast (ls_logItems ls))
   \<and> (length (ls_logItems ls) < 80 \<longrightarrow>
        ls_logItems (addLog t m ls)
          = \<lparr> ls_timeISO = ls_clock ls, ls_tag = t, ls_message = m \<rparr> # ls_logItems ls)"
  by (simp add: addLogEntry_def addLog_def unshift_capped_length unshift_capped_hd
      unshift_capped_below unshift_capped_full)

theorem log_history_capped_newest_first_witness:
  "length (logItems ((initial_app [] None)\<lparr>logItems := replicate 80 (mk_log_item [] (log3 (js ''UI'') [] []))\<rparr>)) = 80
   \<and> length (logItems (addLogEntry (log3 (js ''DONE'') [] [])
          ((initial_app [] None)\<lparr>logItems := replicate 80 (mk_log_item [] (log3 (js ''UI'') [] []))\<rparr>))) = 80
   \<and> logItems (addLogEntry (log3 (js ''DONE'') [] [])
          ((initial_app [] None)\<lparr>logItems := replicate 80 (mk_log_item [] (log3 (js ''UI'') [] []))\<rparr>))
       = mk_log_item [] (log3 (js ''DONE'') [] [])
           # replicate 79 (mk_log_item [] (log3 (js ''UI'') [] []))
   \<and> length (logItems (initial_app [] None)) < 80
   \<and> logItems (addLogEntry (log3 (js ''DONE'') [] []) (initial_app [] None))
       = [mk_log_item [] (log3 (js ''DONE'') [] [])]
   \<and> length (ls_logItems ((ls_initial_app [] None)\<lparr>ls_logItems := replicate 80 \<lparr> ls_timeISO = [], ls_tag = js ''UI'', ls_message = [] \<rparr>\<rparr>)) = 80
   \<and> ls_logItems (addLog (js ''DONE'') []
          ((ls_initial_app [] None)\<lparr>ls_logItems := replicate 80 \<lparr> ls_timeISO = [], ls_tag = js ''UI'', ls_message = [] \<rparr>\<rparr>))
       = \<lparr> ls_timeISO = [], ls_tag = js ''DONE'', ls_message = [] \<rparr>
           # replicate 79 \<lparr> ls_timeISO = [], ls_tag = js ''UI'', ls_message = [] \<rparr>
   \<and> length (ls_logItems (ls_initial_app [] None)) < 80
   \<and> ls_logItems (addLog (js ''DONE'') [] (ls_initial_app [] None))
       = [\<lparr> ls_timeISO = [], ls_tag = js ''DONE'', ls_message = [] \<rparr>]"
  using log_history_capped_newest_first
          [of "log3 (js ''DONE'') [] []"
              "(initial_app [] None)\<lparr>logItems := replicate 80 (mk_log_item [] (log3 (js ''UI'') [] []))\<rparr>"
              "js ''DONE''" "[]"
              "(ls_initial_app [] None)\<lparr>ls_logItems := replicate 80 \<lparr> ls_timeISO = [], ls_tag = js ''UI'', ls_message = [] \<rparr>\<rparr>"]
        log_history_capped_newest_first
          [of "log3 (js ''DONE'') [] []" "initial_app [] None" "js ''DONE''" "[]"
              "ls_initial_app [] None"]
  by (simp add: initial_app_def ls_initial_app_def butlast_conv_take)

section \<open>Chunk boundaries and the frame decoder\<close>

lemma crlf_append:
  "\<not> (x \<noteq> [] \<and> last x = CR \<and> y \<noteq> [] \<and> hd y = LF) \<Longrightarrow> crlf_to_lf (x @ y) = crlf_to_lf x @ crlf_to_lf y"
proof (induction x rule: crlf_to_lf.induct)
  case 1
  then show ?case by simp
next
  case (2 c)
  then show ?case by (cases y) auto
next
  case (3 c d s)
  then show ?case by (auto split: if_splits)
qed

lemma crlf_append_crlf:
  "crlf_to_lf (x @ CR # LF # y) = crlf_to_lf x @ LF # crlf_to_lf y"
  by (induction x rule: crlf_to_lf.induct) auto

lemma crlf_starts_lf:
  "crlf_to_lf s \<noteq> [] \<and> hd (crlf_to_lf s) = LF \<longleftrightarrow> (s \<noteq> [] \<and> hd s = LF) \<or> (\<exists>t. s = CR # LF # t)"
  by (induction s rule: crlf_to_lf.induct) auto

lemma has_crlf_Cons: "has_crlf (a # s) \<longleftrightarrow> (a = CR \<and> s \<noteq> [] \<and> hd s = LF) \<or> has_crlf s"
  by (cases s) auto

lemma no_crcrlf_crlf: "\<not> has_crcrlf x \<Longrightarrow> \<not> has_crlf (crlf_to_lf x)"
proof (induction x rule: crlf_to_lf.induct)
  case 1
  then show ?case by simp
next
  case (2 c)
  then show ?case by simp
next
  case (3 c d s)
  show ?case
  proof (cases "c = CR \<and> d = LF")
    case True
    with 3 show ?thesis by (cases s; cases "tl s") (auto simp: has_crlf_Cons)
  next
    case False
    have nc: "\<not> has_crcrlf (d # s)" using "3.prems" by (cases s) auto
    have "\<not> has_crlf (crlf_to_lf (d # s))" using 3 False nc by auto
    moreover have "\<not> (c = CR \<and> crlf_to_lf (d # s) \<noteq> [] \<and> hd (crlf_to_lf (d # s)) = LF)"
      using False "3.prems" by (auto simp: crlf_starts_lf)
    ultimately show ?thesis using False by (auto simp add: has_crlf_Cons)
  qed
qed

lemma no_crlf_id: "\<not> has_crlf s \<Longrightarrow> crlf_to_lf s = s"
  by (induction s rule: crlf_to_lf.induct) auto


lemma has_crcrlf_append: "has_crcrlf x \<Longrightarrow> has_crcrlf (x @ y)"
  by (induction x rule: has_crcrlf.induct) auto

lemma has_crlf_drop: "has_crlf (drop n s) \<Longrightarrow> has_crlf s"
proof (induction s arbitrary: n)
  case Nil
  then show ?case by simp
next
  case (Cons a s)
  then show ?case by (cases n) (auto simp: has_crlf_Cons)
qed

lemma take_append_le: "n \<le> length xs \<Longrightarrow> take n (xs @ ys) = take n xs"
  by simp

lemma crlf_Nil_iff: "crlf_to_lf s = [] \<longleftrightarrow> s = []"
  by (induction s rule: crlf_to_lf.induct) auto

lemma crlf_ends_cr: "(crlf_to_lf s \<noteq> [] \<and> last (crlf_to_lf s) = CR) \<longleftrightarrow> (s \<noteq> [] \<and> last s = CR)"
  by (induction s rule: crlf_to_lf.induct) (auto simp: crlf_Nil_iff)

lemma indexOf_append: "indexOf pat b = Some i \<Longrightarrow> indexOf pat (b @ c) = Some i"
proof (induction b arbitrary: i)
  case Nil
  then show ?case by (cases c) (auto split: if_splits)
next
  case (Cons a b)
  have len: "length pat \<le> length (a # b)"
    using indexOf_bound [OF Cons.prems] by simp
  have tk: "take (length pat) (a # b @ c) = take (length pat) (a # b)"
    using take_append_le [OF len, of c] by simp
  show ?case
  proof (cases "take (length pat) (a # b) = pat")
    case True
    with Cons.prems tk show ?thesis by simp
  next
    case False
    with Cons.prems obtain j where j: "indexOf pat b = Some j" "i = Suc j" by auto
    with Cons.IH [OF j(1)] j False tk show ?thesis by simp
  qed
qed

lemma drain_none: "indexOf [LF, LF] b = None \<Longrightarrow> drain jp b = ([], b)"
  by (simp add: drain.simps)

lemma drain_some:
  "indexOf [LF, LF] b = Some i \<Longrightarrow> drain jp (drop (i + 2) b) = (evs, rest) \<Longrightarrow>
   drain jp b = (if trim (take i b) = [] then evs else parseSseFrame jp (trim (take i b)) # evs, rest)"
  by (subst drain.simps) (simp add: Let_def)

lemma drain_append:
  "drain jp b = (fs, r) \<Longrightarrow> drain jp (r @ c) = (fs', r') \<Longrightarrow> drain jp (b @ c) = (fs @ fs', r')"
proof (induction jp b arbitrary: fs r rule: drain.induct)
  case (1 jp buffer)
  show ?case
  proof (cases "indexOf [LF, LF] buffer")
    case None
    with 1 show ?thesis by (simp add: drain_none)
  next
    case (Some i)
    then have bound: "i + 2 \<le> length buffer" using indexOf_bound by fastforce
    have idx: "indexOf [LF, LF] (buffer @ c) = Some i" using Some by (rule indexOf_append)
    obtain evs rest where dr: "drain jp (drop (i + 2) buffer) = (evs, rest)" by fastforce
    have fs: "fs = (if trim (take i buffer) = [] then evs else parseSseFrame jp (trim (take i buffer)) # evs)"
      and r: "r = rest"
      using drain_some [OF Some dr] "1.prems"(1) by simp_all
    have "drain jp (drop (i + 2) buffer @ c) = (evs @ fs', r')"
      using "1.IH" [OF Some refl dr] "1.prems"(2) r by simp
    then have "drain jp (drop (i + 2) (buffer @ c)) = (evs @ fs', r')"
      using bound by simp
    from drain_some [OF idx this] bound show ?thesis
      by (simp add: fs)
  qed
qed

lemma drain_rest_drop: "\<exists>n. snd (drain jp b) = drop n b"
proof (induction jp b rule: drain.induct)
  case (1 jp buffer)
  show ?case
  proof (cases "indexOf [LF, LF] buffer")
    case None
    then have "snd (drain jp buffer) = drop 0 buffer" by (simp add: drain_none)
    then show ?thesis by blast
  next
    case (Some i)
    obtain evs rest where dr: "drain jp (drop (i + 2) buffer) = (evs, rest)" by fastforce
    from "1.IH" [OF Some refl] dr obtain n where "rest = drop n (drop (i + 2) buffer)"
      by auto
    then have "snd (drain jp buffer) = drop (n + (i + 2)) buffer"
      using drain_some [OF Some dr] by (simp add: add.commute)
    then show ?thesis by blast
  qed
qed

lemma drain_rest_none: "indexOf [LF, LF] (snd (drain jp b)) = None"
proof (induction jp b rule: drain.induct)
  case (1 jp buffer)
  show ?case
  proof (cases "indexOf [LF, LF] buffer")
    case None
    then show ?thesis by (simp add: drain_none)
  next
    case (Some i)
    obtain evs rest where dr: "drain jp (drop (i + 2) buffer) = (evs, rest)" by fastforce
    with "1.IH" [OF Some refl] drain_some [OF Some dr] show ?thesis by simp
  qed
qed

lemma indexOf_lflf_snoc_cr: "indexOf [LF, LF] r = None \<Longrightarrow> indexOf [LF, LF] (r @ [CR]) = None"
proof (induction r)
  case Nil
  then show ?case by simp
next
  case (Cons a r)
  then show ?case by (cases r) (auto split: if_splits)
qed

lemma drain_blocks:
  "fst (drain jp b) = map (parseSseFrame jp) (filter (\<lambda>f. f \<noteq> []) (map trim (blocks b)))"
proof (induction jp b rule: drain.induct)
  case (1 jp buffer)
  show ?case
  proof (cases "indexOf [LF, LF] buffer")
    case None
    then show ?thesis by (simp add: drain_none blocks.simps)
  next
    case (Some i)
    obtain evs rest where dr: "drain jp (drop (i + 2) buffer) = (evs, rest)" by fastforce
    with "1.IH" [OF Some refl] drain_some [OF Some dr] Some show ?thesis
      by (subst blocks.simps) simp
  qed
qed


lemma last_of_drop: "drop n s \<noteq> [] \<Longrightarrow> last (drop n s) = last s"
  by (simp add: last_drop)

lemma rest_no_crlf: "\<not> has_crlf b \<Longrightarrow> \<not> has_crlf (snd (drain jp b))"
  using drain_rest_drop [of jp b] has_crlf_drop by metis

lemma rest_ends_cr:
  "snd (drain jp b) \<noteq> [] \<Longrightarrow> last (snd (drain jp b)) = CR \<Longrightarrow> b \<noteq> [] \<and> last b = CR"
  using drain_rest_drop [of jp b] by (metis drop_Nil last_of_drop)

lemma drain_step:
  assumes nc: "\<not> has_crcrlf (x @ y)"
    and dx: "drain jp (crlf_to_lf x) = (fs, r)"
    and dr: "drain jp (crlf_to_lf (r @ y)) = (fs', r')"
  shows "drain jp (crlf_to_lf (x @ y)) = (fs @ fs', r')"
proof (cases "x \<noteq> [] \<and> last x = CR \<and> y \<noteq> [] \<and> hd y = LF")
  case False
  have ncx: "\<not> has_crcrlf x" using nc has_crcrlf_append by blast
  have r_plain: "\<not> has_crlf r"
    using rest_no_crlf [OF no_crcrlf_crlf [OF ncx], of jp] dx by simp
  have "\<not> (r \<noteq> [] \<and> last r = CR \<and> y \<noteq> [] \<and> hd y = LF)"
  proof
    assume a: "r \<noteq> [] \<and> last r = CR \<and> y \<noteq> [] \<and> hd y = LF"
    then have "crlf_to_lf x \<noteq> [] \<and> last (crlf_to_lf x) = CR"
      using rest_ends_cr [of jp "crlf_to_lf x"] dx by simp
    then have "x \<noteq> [] \<and> last x = CR" using crlf_ends_cr [of x] by blast
    with a False show False by blast
  qed
  then have "crlf_to_lf (r @ y) = r @ crlf_to_lf y"
    using crlf_append [of r y] no_crlf_id [OF r_plain] by simp
  with dr have "drain jp (r @ crlf_to_lf y) = (fs', r')" by simp
  from drain_append [OF dx this] crlf_append [OF False] show ?thesis by simp
next
  case True
  then obtain x' y' where x: "x = x' @ [CR]" and y: "y = LF # y'"
    by (metis append_butlast_last_id list.collapse)
  have split: "crlf_to_lf (x @ y) = crlf_to_lf x' @ LF # crlf_to_lf y'"
    using crlf_append_crlf [of x' y'] x y by simp
  have cx: "crlf_to_lf x = crlf_to_lf x' @ [CR]"
    using crlf_append [of x' "[CR]"] x by simp
  obtain fs0 r0 where d0: "drain jp (crlf_to_lf x') = (fs0, r0)" by fastforce
  have r0_none: "indexOf [LF, LF] r0 = None"
    using drain_rest_none [of jp "crlf_to_lf x'"] d0 by simp
  have "drain jp (r0 @ [CR]) = ([], r0 @ [CR])"
    using drain_none [OF indexOf_lflf_snoc_cr [OF r0_none]] .
  from drain_append [OF d0 this] cx dx have fs: "fs = fs0" and r: "r = r0 @ [CR]" by simp_all
  have ncx': "\<not> has_crcrlf x'" using nc x has_crcrlf_append by (metis append.assoc)
  have r0_plain: "\<not> has_crlf r0"
    using rest_no_crlf [OF no_crcrlf_crlf [OF ncx'], of jp] d0 by simp
  have "crlf_to_lf (r @ y) = r0 @ LF # crlf_to_lf y'"
    using crlf_append_crlf [of r0 y'] r y no_crlf_id [OF r0_plain] by simp
  with dr have "drain jp (r0 @ LF # crlf_to_lf y') = (fs', r')" by simp
  from drain_append [OF d0 this] split fs show ?thesis by simp
qed

lemma feed_drain:
  "\<not> has_crcrlf (x @ concat cs) \<Longrightarrow>
   fst (drain jp (crlf_to_lf x)) @ feed jp (snd (drain jp (crlf_to_lf x))) cs
     = fst (drain jp (crlf_to_lf (x @ concat cs)))"
proof (induction cs arbitrary: x)
  case Nil
  then show ?case by simp
next
  case (Cons c cs)
  obtain fs r where dx: "drain jp (crlf_to_lf x) = (fs, r)" by fastforce
  obtain fs' r' where dr: "drain jp (crlf_to_lf (r @ c)) = (fs', r')" by fastforce
  have nc: "\<not> has_crcrlf (x @ c)"
    using Cons.prems has_crcrlf_append [of "x @ c" "concat cs"] by auto
  have step: "drain jp (crlf_to_lf (x @ c)) = (fs @ fs', r')"
    using drain_step [OF nc dx dr] .
  have "fst (drain jp (crlf_to_lf (x @ c))) @ feed jp (snd (drain jp (crlf_to_lf (x @ c)))) cs
          = fst (drain jp (crlf_to_lf ((x @ c) @ concat cs)))"
    using Cons.IH [of "x @ c"] Cons.prems by simp
  then show ?case by (simp add: dx dr step)
qed

text \<open>
  Claim C4, as amended. For a body text that nowhere holds a carriage return followed by
  a carriage return and a line feed, any two ways of cutting the text into chunks give
  the same frames, and these are the frames of the blocks of the normalised text, one
  per block whose trimmed text is not empty, in the order of the blocks.
\<close>

theorem frames_independent_of_chunking:
  assumes "\<not> has_crcrlf (concat cs1)" and "concat cs1 = concat cs2"
  shows "feed jp [] cs1 = feed jp [] cs2
    \<and> feed jp [] cs1
        = map (parseSseFrame jp)
            (filter (\<lambda>f. f \<noteq> []) (map trim (blocks (crlf_to_lf (concat cs1)))))"
proof -
  have d0: "drain jp [] = ([], [])" by (simp add: drain_none)
  have "feed jp [] cs = fst (drain jp (crlf_to_lf (concat cs)))" if "\<not> has_crcrlf (concat cs)" for cs
    using feed_drain [of "[]" cs jp] that by (simp add: d0)
  with assms show ?thesis by (simp add: drain_blocks)
qed

theorem frames_independent_of_chunking_witness:
  "\<not> has_crcrlf (concat [js ''event: upd'', js ''ates'' @ [CR], LF # js ''id: 7'' @ [CR, LF, CR], [LF, LF, LF]])
   \<and> concat [js ''event: upd'', js ''ates'' @ [CR], LF # js ''id: 7'' @ [CR, LF, CR], [LF, LF, LF]]
       = concat [js ''event: updates'' @ [CR, LF] @ js ''id: 7'' @ [CR, LF, CR, LF, LF, LF]]
   \<and> feed (\<lambda>_. None) [] [js ''event: upd'', js ''ates'' @ [CR], LF # js ''id: 7'' @ [CR, LF, CR], [LF, LF, LF]]
       = feed (\<lambda>_. None) [] [js ''event: updates'' @ [CR, LF] @ js ''id: 7'' @ [CR, LF, CR, LF, LF, LF]]
   \<and> feed (\<lambda>_. None) [] [js ''event: upd'', js ''ates'' @ [CR], LF # js ''id: 7'' @ [CR, LF, CR], [LF, LF, LF]]
       = [\<lparr> f_id = js ''7'', f_event = js ''updates'', f_data = Str [] \<rparr>]"
proof -
  have h1: "\<not> has_crcrlf (concat [js ''event: upd'', js ''ates'' @ [CR], LF # js ''id: 7'' @ [CR, LF, CR], [LF, LF, LF]])"
    by (simp add: js_def)
  have h2: "concat [js ''event: upd'', js ''ates'' @ [CR], LF # js ''id: 7'' @ [CR, LF, CR], [LF, LF, LF]]
       = concat [js ''event: updates'' @ [CR, LF] @ js ''id: 7'' @ [CR, LF, CR, LF, LF, LF]]"
    by (simp add: js_def)
  have h3: "feed (\<lambda>_. None) [] [js ''event: upd'', js ''ates'' @ [CR], LF # js ''id: 7'' @ [CR, LF, CR], [LF, LF, LF]]
       = [\<lparr> f_id = js ''7'', f_event = js ''updates'', f_data = Str [] \<rparr>]"
    by (simp add: js_def drain.simps trim_def is_space_def parseSseFrame_def parse_line_def
        startsWith_def)
  from frames_independent_of_chunking [OF h1 h2, of "\<lambda>_. None"] h1 h2 h3 show ?thesis
    by blast
qed

text \<open>
  Claim C4 as stated fails: the text \<^verbatim>\<open>event: a\n\r\r\nevent: b\n\n\<close> decodes to one
  frame when it arrives in one chunk, and to two frames when it is cut after the first
  line feed that follows the two carriage returns.
\<close>

theorem chunk_boundary_counterexample:
  "concat [js ''event: a'' @ [LF, CR, CR, LF] @ js ''event: b'' @ [LF, LF]]
     = concat [js ''event: a'' @ [LF, CR, CR, LF], js ''event: b'' @ [LF, LF]]
   \<and> feed (\<lambda>_. None) [] [js ''event: a'' @ [LF, CR, CR, LF] @ js ''event: b'' @ [LF, LF]]
       = [\<lparr> f_id = [], f_event = js ''b'', f_data = Str [] \<rparr>]
   \<and> feed (\<lambda>_. None) [] [js ''event: a'' @ [LF, CR, CR, LF], js ''event: b'' @ [LF, LF]]
       = [\<lparr> f_id = [], f_event = js ''a'', f_data = Str [] \<rparr>,
          \<lparr> f_id = [], f_event = js ''b'', f_data = Str [] \<rparr>]
   \<and> feed (\<lambda>_. None) [] [js ''event: a'' @ [LF, CR, CR, LF] @ js ''event: b'' @ [LF, LF]]
       \<noteq> feed (\<lambda>_. None) [] [js ''event: a'' @ [LF, CR, CR, LF], js ''event: b'' @ [LF, LF]]"
  by (simp add: js_def drain.simps trim_def is_space_def parseSseFrame_def parse_line_def
      startsWith_def)

section \<open>The interrupt extractor\<close>

lemma candidate_payload_falsy: "\<not> truthy c \<Longrightarrow> candidate_payload c = None"
  by (cases c) (simp_all add: candidate_payload_def)

lemma first_candidate_filter: "first_candidate (filter truthy cs) = first_candidate cs"
  by (induction cs) (simp_all add: candidate_payload_falsy split: option.splits)

text \<open>
  Claim C3, as amended. When none of the four candidate places yields a payload (the
  place is absent, or what it holds does not pass the test of the loop) and the
  \<^verbatim>\<open>status\<close> field of the object is the string \<^verbatim>\<open>interrupted\<close>, the extractor returns
  the object with \<^verbatim>\<open>kind\<close> \<^verbatim>\<open>approval_request\<close>, \<^verbatim>\<open>question\<close> \<^verbatim>\<open>Approve?\<close>,
  \<^verbatim>\<open>options\<close> y, retry, n and an empty preview under the name \<^verbatim>\<open>analysis_preview\<close>,
  the name under which the server sends a preview and the page reads it.
\<close>

theorem fallback_interrupt_when_status_interrupted:
  assumes "candidate_payload (get obj (js ''__interrupt__'')) = None"
    and "candidate_payload (get (get obj (js ''values'')) (js ''__interrupt__'')) = None"
    and "candidate_payload (get obj (js ''interrupts'')) = None"
    and "candidate_payload (get (get obj (js ''values'')) (js ''interrupts'')) = None"
    and "get obj (js ''status'') = Str (js ''interrupted'')"
  shows "extractInterruptPayload obj =
           Inr (Obj [(js ''kind'', Str (js ''approval_request'')),
                     (js ''question'', Str (js ''Approve?'')),
                     (js ''options'', Arr [Str (js ''y''), Str (js ''retry''), Str (js ''n'')]),
                     (js ''analysis_preview'', Arr [])])"
proof -
  have "truthy obj" using assms(5) by (cases obj) (auto split: if_splits)
  then show ?thesis
    using assms
    by (simp add: extractInterruptPayload_def first_candidate_filter js_or_def fallback_interrupt_def)
qed

theorem fallback_interrupt_when_status_interrupted_witness:
  "candidate_payload (get (Obj [(js ''status'', Str (js ''interrupted'')), (js ''values'', Obj [])]) (js ''__interrupt__'')) = None
   \<and> candidate_payload (get (get (Obj [(js ''status'', Str (js ''interrupted'')), (js ''values'', Obj [])]) (js ''values'')) (js ''__interrupt__'')) = None
   \<and> candidate_payload (get (Obj [(js ''status'', Str (js ''interrupted'')), (js ''values'', Obj [])]) (js ''interrupts'')) = None
   \<and> candidate_payload (get (get (Obj [(js ''status'', Str (js ''interrupted'')), (js ''values'', Obj [])]) (js ''values'')) (js ''interrupts'')) = None
   \<and> get (Obj [(js ''status'', Str (js ''interrupted'')), (js ''values'', Obj [])]) (js ''status'')
       = Str (js ''interrupted'')
   \<and> extractInterruptPayload (Obj [(js ''status'', Str (js ''interrupted'')), (js ''values'', Obj [])])
       = Inr (Obj [(js ''kind'', Str (js ''approval_request'')),
                   (js ''question'', Str (js ''Approve?'')),
                   (js ''options'', Arr [Str (js ''y''), Str (js ''retry''), Str (js ''n'')]),
                   (js ''analysis_preview'', Arr [])])"
  using fallback_interrupt_when_status_interrupted
          [of "Obj [(js ''status'', Str (js ''interrupted'')), (js ''values'', Obj [])]"]
  by (simp add: candidate_payload_def)

text \<open>
  Claim C3 as stated fails in the name of one field: the object returned for the snapshot
  of the example has no field \<^verbatim>\<open>preview\<close>; its empty preview is the field
  \<^verbatim>\<open>analysis_preview\<close>.
\<close>

theorem fallback_interrupt_field_name_counterexample:
  "extractInterruptPayload (Obj [(js ''status'', Str (js ''interrupted'')), (js ''values'', Obj [])])
     \<noteq> Inr (Obj [(js ''kind'', Str (js ''approval_request'')),
                 (js ''question'', Str (js ''Approve?'')),
                 (js ''options'', Arr [Str (js ''y''), Str (js ''retry''), Str (js ''n'')]),
                 (js ''preview'', Arr [])])
   \<and> extractInterruptPayload (Obj [(js ''status'', Str (js ''interrupted'')), (js ''values'', Obj [])])
       = Inr fallback_interrupt
   \<and> get fallback_interrupt (js ''preview'') = Undefined
   \<and> get fallback_interrupt (js ''analysis_preview'') = Arr []"
  by (simp add: extractInterruptPayload_def js_or_def fallback_interrupt_def)





section \<open>Frames and the state\<close>

lemma agent_defined:
  "js_String (js_or (NODE_LABEL k) (Str k)) \<noteq> None"
  "js_String (NODE_LABEL (js ''human_approval'')) \<noteq> None"
  by (simp_all add: NODE_LABEL_def js_or_def split: option.splits)

lemma keeps_refl: "keeps st st"
  by (simp add: keeps_def)

lemma keeps_trans: "keeps a b \<Longrightarrow> keeps b c \<Longrightarrow> keeps a c"
  by (simp add: keeps_def)

lemma keeps_addLogEntry: "keeps st x \<Longrightarrow> keeps st (addLogEntry a x)"
  by (simp add: keeps_def addLogEntry_def)

lemma keeps_setWork: "keeps st x \<Longrightarrow> keeps st (setWork w x)"
  by (simp add: keeps_def setWork_def)

lemma keeps_setStatus: "keeps st x \<Longrightarrow> keeps st (setStatus x)"
  by (simp add: keeps_def setStatus_def)

lemma keeps_setUiState: "keeps st x \<Longrightarrow> keeps st (setUiState p x)"
  by (simp add: keeps_def setUiState_def)

lemma keeps_showApproval: "keeps st x \<Longrightarrow> keeps st (snd (showApprovalIfNeeded E p x))"
  by (simp add: keeps_def showApprovalIfNeeded_def addLogEntry_def setUiState_def Let_def
      split: option.splits)

lemma keeps_log_sse_event: "keeps st x \<Longrightarrow> keeps st (snd (log_sse_event E r n x))"
  by (simp add: keeps_def log_sse_event_def addLogEntry_def Let_def split: option.splits)

lemma keeps_if: "keeps st a \<Longrightarrow> keeps st b \<Longrightarrow> keeps st (if c then a else b)"
  by simp

lemma keeps_snd_pair: "keeps st x \<Longrightarrow> keeps st (snd (e, x))"
  by simp

lemma keeps_snd_if: "keeps st (snd a) \<Longrightarrow> keeps st (snd b) \<Longrightarrow> keeps st (snd (if c then a else b))"
  by simp

lemma keeps_snd_sum:
  "(\<And>e. keeps st (snd (f e))) \<Longrightarrow> (\<And>x. keeps st (snd (g x)))
   \<Longrightarrow> keeps st (snd (case s of Inl e \<Rightarrow> f e | Inr x \<Rightarrow> g x))"
  by (cases s) simp_all

lemma keeps_snd_option:
  "keeps st (snd a) \<Longrightarrow> (\<And>x. keeps st (snd (g x)))
   \<Longrightarrow> keeps st (snd (case s of None \<Rightarrow> a | Some x \<Rightarrow> g x))"
  by (cases s) simp_all

lemma keeps_handleSseEvent: "keeps st (snd (handleSseEvent E ev st))"
  unfolding handleSseEvent_def Let_def
  by (intro keeps_snd_sum keeps_snd_option keeps_snd_if keeps_snd_pair keeps_showApproval
      keeps_log_sse_event keeps_if keeps_setWork keeps_setStatus keeps_refl)

lemma keeps_handle_frames: "keeps st (snd (handle_frames E evs st))"
proof (induction evs arbitrary: st)
  case Nil
  then show ?case by (simp add: keeps_refl)
next
  case (Cons ev evs)
  obtain r st1 where h: "handleSseEvent E ev st = (r, st1)" by fastforce
  have k1: "keeps st st1" using keeps_handleSseEvent [of st E ev] h by simp
  show ?case
  proof (cases r)
    case None
    then show ?thesis using h keeps_trans [OF k1 Cons.IH [of st1]] by simp
  next
    case (Some e)
    then show ?thesis using h k1 by simp
  qed
qed



lemma showApproval_ok: "approval_renders p \<Longrightarrow> fst (showApprovalIfNeeded E p st) = None"
  by (auto simp add: approval_renders_def showApprovalIfNeeded_def Let_def split: option.splits)

lemma values_step_eq:
  "get (if truthy v \<and> typeof v = ''object'' then v else Null) (js ''current_step'')
     = get v (js ''current_step'')"
  by (cases v) simp_all

lemma get_of_no_object: "\<not> (truthy r \<and> typeof r = ''object'') \<Longrightarrow> get r k = Undefined"
  by (cases r) auto

lemma log_sse_event_ok:
  "js_String (get (get r (js ''values'')) (js ''current_step'')) \<noteq> None
   \<Longrightarrow> fst (log_sse_event E r n st) = None"
  by (auto simp add: log_sse_event_def Let_def split: option.splits)

lemma frame_safe_ok:
  assumes "frame_safe ev"
  shows "fst (handleSseEvent E ev st) = None"
proof (cases "truthy (f_data ev) \<and> typeof (f_data ev) = ''object''")
  case False
  then have u: "get (f_data ev) (js ''values'') = Undefined" by (rule get_of_no_object)
  have l: "fst (log_sse_event E (f_data ev) n s) = None" for n s
    by (rule log_sse_event_ok) (simp add: u)
  from False have no: "(truthy (f_data ev) \<and> typeof (f_data ev) = ''object'') = False" by simp
  show ?thesis
    using l by (simp add: handleSseEvent_def Let_def no)
next
  case True
  then have is_obj: "(truthy (f_data ev) \<and> typeof (f_data ev) = ''object'') = True" by simp
  from True obtain p where ip: "extractInterruptPayload (f_data ev) = Inr p"
    using assms by (auto simp add: frame_safe_def split: sum.splits)
  show ?thesis
  proof (cases "truthy p")
    case yes: True
    then have "approval_renders p" using assms True ip by (simp add: frame_safe_def)
    then show ?thesis
      using ip yes by (simp add: handleSseEvent_def Let_def showApproval_ok is_obj)
  next
    case no: False
    then have cs: "js_String (get (get (f_data ev) (js ''values'')) (js ''current_step'')) \<noteq> None"
      using assms True ip by (simp add: frame_safe_def)
    then obtain t where t: "js_String (get (get (f_data ev) (js ''values'')) (js ''current_step'')) = Some t"
      by blast
    have l: "fst (log_sse_event E (f_data ev) n s) = None" for n s
      using cs by (rule log_sse_event_ok)
    show ?thesis
      using ip no t l by (simp add: handleSseEvent_def Let_def values_step_eq is_obj)
  qed
qed

lemma frames_ok: "list_all frame_safe evs \<Longrightarrow> fst (handle_frames E evs st) = None"
proof (induction evs arbitrary: st)
  case Nil
  then show ?case by simp
next
  case (Cons ev evs)
  obtain r st1 where h: "handleSseEvent E ev st = (r, st1)" by fastforce
  have "r = None" using frame_safe_ok [of ev E st] Cons.prems h by simp
  then show ?case using h Cons by simp
qed


section \<open>The state after the stream\<close>

lemma runStream_unconvertible:
  "js_String tid = None \<Longrightarrow> runStream E tid b sr st = (Some cannot_convert, st)"
  by (simp add: runStream_def)

lemma runStream_keeps:
  assumes tt: "js_String tid = Some t"
  shows "keeps (st\<lparr>requests := requests st @ [PostRunStream t b]\<rparr>) (snd (runStream E tid b sr st))"
proof -
  let ?st1 = "st\<lparr>requests := requests st @ [PostRunStream t b]\<rparr>"
  show ?thesis
  proof (cases sr)
    case (StreamFetchFails e)
    then show ?thesis using tt by (simp add: runStream_def keeps_refl)
  next
    case (StreamResponse ok status body ct chunks readError)
    obtain r st3 where h: "handle_frames E (feed (jsonParse E) [] chunks) ?st1 = (r, st3)" by fastforce
    have k: "keeps ?st1 st3"
      using keeps_handle_frames [of ?st1 E "feed (jsonParse E) [] chunks"] h by simp
    have k': "keeps ?st1 (addLogEntry a st3)" for a by (intro keeps_addLogEntry k)
    show ?thesis
    proof (cases ok)
      case False
      then show ?thesis using StreamResponse tt by (simp add: runStream_def keeps_refl)
    next
      case True
      then show ?thesis
        using StreamResponse tt h k k'
        by (cases r; cases readError) (simp_all add: runStream_def Let_def SHOW_NOISY_SSE_def)
    qed
  qed
qed

lemma runStream_completes:
  assumes sr: "sr = StreamResponse True status body ct chunks None"
    and safe: "list_all frame_safe (feed (jsonParse E) [] chunks)"
    and tt: "js_String tid = Some t"
  shows "\<exists>st'. runStream E tid b sr st = (None, st')
           \<and> keeps (st\<lparr>requests := requests st @ [PostRunStream t b]\<rparr>) st'"
proof -
  let ?st1 = "st\<lparr>requests := requests st @ [PostRunStream t b]\<rparr>"
  obtain r st3 where h: "handle_frames E (feed (jsonParse E) [] chunks) ?st1 = (r, st3)" by fastforce
  have r: "r = None" using frames_ok [OF safe, of E ?st1] h by simp
  have "fst (runStream E tid b sr st) = None"
    using sr tt h r by (simp add: runStream_def Let_def SHOW_NOISY_SSE_def)
  then show ?thesis
    using runStream_keeps [OF tt, of st b E sr] by (cases "runStream E tid b sr st") auto
qed

lemma getThread_state:
  "js_String tid = Some t \<Longrightarrow>
   snd (getThread tid resp st) = st\<lparr>requests := requests st @ [GetThread t]\<rparr>"
  by (simp add: getThread_def Let_def split: http_result.splits)

lemma showApproval_ids:
  assumes "showApprovalIfNeeded E p x = (r, s)"
  shows "requests s = requests x \<and> errorText s = errorText x \<and> threadId s = threadId x
         \<and> stored_tid s = stored_tid x \<and> reportShown s = reportShown x
         \<and> reportText s = reportText x"
  using keeps_showApproval [OF keeps_refl, of x E p] assms by (simp add: keeps_def)

lemma after_stream_frame:
  "requests (snd (after_stream E ph t st)) = requests st"
  "errorText (snd (after_stream E ph t st)) = errorText st"
  "threadId (snd (after_stream E ph t st)) = threadId st"
  "stored_tid (snd (after_stream E ph t st)) = stored_tid st"
  by (auto simp add: after_stream_def Let_def setStatus_def setWork_def addLogEntry_def
      setUiState_def dest!: showApproval_ids split: sum.splits option.splits prod.splits)




lemma after_stream_nothing:
  assumes ip: "extractInterruptPayload t = Inr p" and cs: "extractCurrentStepFromThread t = Inr s"
    and no: "\<not> truthy p" and rp: "extractFinalReportFromThread t = []"
  shows "fst (after_stream E ph t st) = None"
    and "uiState (snd (after_stream E ph t st)) = Done"
    and "reportShown (snd (after_stream E ph t st))"
    and "reportText (snd (after_stream E ph t st)) = ph"
    and "logItems (snd (after_stream E ph t st)) ! 0
           = mk_log_item (clock st)
               (log3 (js ''DONE'') (js ''Done (no final report)'') (js ''Done (no final report)''))"
  using assms
  by (simp_all add: after_stream_def Let_def setStatus_def setWork_def addLogEntry_def
      setUiState_def unshift_capped_def MAX_LOG_ITEMS_def)


lemma start_reaches_snapshot:
  assumes cr: "createThread createResp = Inr tid" and tt: "js_String tid = Some t"
    and sr: "streamResp = StreamResponse True status body ct chunks None"
    and safe: "list_all frame_safe (feed (jsonParse E) [] chunks)"
    and tr: "threadResp = Response True status' body' (Inr threadObj)"
  shows "\<exists>st5. start E theme createResp streamResp threadResp st
                  = after_stream E start_placeholder threadObj st5
           \<and> requests st5 = requests st @ [PostThreads, PostRunStream t (StartInput theme), GetThread t]
           \<and> \<not> reportShown st5 \<and> errorText st5 = [] \<and> threadId st5 = tid
           \<and> stored_tid st5 = Some t"
proof -
  let ?st3 = "addLogEntry
                (log3 (js ''START'') (js ''Started: '' @ [34] @ theme @ [34])
                   (js ''Started: '' @ [34] @ theme @ [34] @ js '' / thread_id='' @ t))
                (setStatus (setUiState Starting (setWork (js ''-'')
                   (addLogEntry
                      (log3 (js ''THREAD'') (js ''Created: thread_id='' @ t)
                         (js ''Created: thread_id='' @ t))
                      ((resetViewForRun st)\<lparr>requests := requests (resetViewForRun st) @ [PostThreads],
                          threadId := tid, stored_tid := Some t\<rparr>)))))"
  obtain st4 where rs: "runStream E tid (StartInput theme) streamResp ?st3 = (None, st4)"
    and k: "keeps (?st3\<lparr>requests := requests ?st3 @ [PostRunStream t (StartInput theme)]\<rparr>) st4"
    using runStream_completes [OF sr safe tt] by blast
  let ?st5 = "st4\<lparr>requests := requests st4 @ [GetThread t]\<rparr>"
  have "start E theme createResp streamResp threadResp st
          = after_stream E start_placeholder threadObj ?st5"
    using cr tt rs tr by (simp add: start_def ensureThreadIdFromServer_def Let_def getThread_def)
  moreover have "requests ?st5 = requests st @ [PostThreads, PostRunStream t (StartInput theme), GetThread t]"
    "\<not> reportShown ?st5" "errorText ?st5 = []" "threadId ?st5 = tid" "stored_tid ?st5 = Some t"
    using k by (simp_all add: keeps_def addLogEntry_def setStatus_def setUiState_def setWork_def
        resetViewForRun_def setError_def)
  ultimately show ?thesis by blast
qed



lemma runWithUi_done: "fn (setError [] st) = (None, st1) \<Longrightarrow> runWithUi fn st = st1"
  by (simp add: runWithUi_def)


lemma example_frames:
  "feed (jsonParse example_env) [] example_chunks
     = [\<lparr> f_id = [], f_event = [], f_data = Str (js ''1'') \<rparr>]"
  by (simp add: js_def drain.simps trim_def is_space_def parseSseFrame_def parse_line_def
      startsWith_def example_env_def example_chunks_def)



section \<open>The final report\<close>

lemma dropWhile_all_iff:
  "(\<forall>x\<in>set (dropWhile P r). P x) \<longleftrightarrow> (\<forall>x\<in>set r. P x)"
proof
  assume a: "\<forall>x\<in>set (dropWhile P r). P x"
  have "dropWhile P r = []"
  proof (rule ccontr)
    assume ne: "dropWhile P r \<noteq> []"
    then have "\<not> P (hd (dropWhile P r))" by (rule hd_dropWhile)
    moreover have "hd (dropWhile P r) \<in> set (dropWhile P r)" using ne by simp
    ultimately show False using a by blast
  qed
  then show "\<forall>x\<in>set r. P x" by (simp add: dropWhile_eq_Nil_conv)
next
  assume "\<forall>x\<in>set r. P x"
  then show "\<forall>x\<in>set (dropWhile P r). P x" using set_dropWhileD by fastforce
qed

lemma trim_Nil_iff: "trim r = [] \<longleftrightarrow> (\<forall>c\<in>set r. is_space c)"
  by (simp add: trim_def dropWhile_eq_Nil_conv dropWhile_all_iff)

lemma final_report_cases:
  "extractFinalReportFromThread t =
     (case get (get t (js ''values'')) (js ''final_report'') of
        Str r \<Rightarrow> if list_ex (\<lambda>c. \<not> is_space c) r then r else []
      | _ \<Rightarrow> [])"
  by (cases "get t (js ''values'')")
     (auto simp add: extractFinalReportFromThread_def trim_Nil_iff list_ex_iff split: jsval.splits)

text \<open>
  Claim C10. The report taken from a snapshot is the \<^verbatim>\<open>final_report\<close> field of its
  \<^verbatim>\<open>values\<close> when that field is a string with a character that is not white space,
  and the empty string in every other case: no \<^verbatim>\<open>values\<close>, no such field, a field that
  is not a string, an empty or white-space-only string. A start whose stream ends without
  an exception and whose snapshot can be read, holds no interrupt and holds a
  white-space-only report ends in the phase done with the text for a missing report and
  the log entry of a missing report.
\<close>

theorem final_report_needs_visible_text:
  "extractFinalReportFromThread t =
     (case get (get t (js ''values'')) (js ''final_report'') of
        Str r \<Rightarrow> if list_ex (\<lambda>c. \<not> is_space c) r then r else []
      | _ \<Rightarrow> [])
   \<and> (createThread createResp = Inr tid \<and> js_String tid = Some tt
        \<and> streamResp = StreamResponse True status body ct chunks None
        \<and> list_all frame_safe (feed (jsonParse E) [] chunks)
        \<and> threadResp = Response True status' body' (Inr t)
        \<and> extractInterruptPayload t = Inr p \<and> \<not> truthy p
        \<and> extractCurrentStepFromThread t = Inr s
        \<and> get (get t (js ''values'')) (js ''final_report'') = Str r
        \<and> (\<forall>c\<in>set r. is_space c) \<longrightarrow>
          uiState (runWithUi (start E theme createResp streamResp threadResp) st) = Done
          \<and> reportText (runWithUi (start E theme createResp streamResp threadResp) st) = start_placeholder
          \<and> summary (logItems (runWithUi (start E theme createResp streamResp threadResp) st) ! 0)
              = js ''Done (no final report)'')"
proof (intro conjI impI)
  show "extractFinalReportFromThread t =
     (case get (get t (js ''values'')) (js ''final_report'') of
        Str r \<Rightarrow> if list_ex (\<lambda>c. \<not> is_space c) r then r else []
      | _ \<Rightarrow> [])"
    by (rule final_report_cases)
next
  assume a: "createThread createResp = Inr tid \<and> js_String tid = Some tt
        \<and> streamResp = StreamResponse True status body ct chunks None
        \<and> list_all frame_safe (feed (jsonParse E) [] chunks)
        \<and> threadResp = Response True status' body' (Inr t)
        \<and> extractInterruptPayload t = Inr p \<and> \<not> truthy p
        \<and> extractCurrentStepFromThread t = Inr s
        \<and> get (get t (js ''values'')) (js ''final_report'') = Str r
        \<and> (\<forall>c\<in>set r. is_space c)"
  then have empty: "extractFinalReportFromThread t = []"
    by (simp add: final_report_cases list_ex_iff)
  from a have cr: "createThread createResp = Inr tid" and tt: "js_String tid = Some tt"
    and sr: "streamResp = StreamResponse True status body ct chunks None"
    and safe: "list_all frame_safe (feed (jsonParse E) [] chunks)"
    and tr: "threadResp = Response True status' body' (Inr t)"
    and ip: "extractInterruptPayload t = Inr p" and no: "\<not> truthy p"
    and cs: "extractCurrentStepFromThread t = Inr s"
    by simp_all
  from start_reaches_snapshot [OF cr tt sr safe tr, of theme "setError [] st"]
  obtain st5 where
    run: "start E theme createResp streamResp threadResp (setError [] st)
            = after_stream E start_placeholder t st5"
    by blast
  have out: "fst (after_stream E start_placeholder t st5) = None"
    using after_stream_nothing(1) [OF ip cs no empty] .
  have res: "runWithUi (start E theme createResp streamResp threadResp) st
               = snd (after_stream E start_placeholder t st5)"
    using run out
    by (cases "after_stream E start_placeholder t st5") (simp add: runWithUi_def)
  show "uiState (runWithUi (start E theme createResp streamResp threadResp) st) = Done"
    and "reportText (runWithUi (start E theme createResp streamResp threadResp) st) = start_placeholder"
    and "summary (logItems (runWithUi (start E theme createResp streamResp threadResp) st) ! 0)
              = js ''Done (no final report)''"
    using after_stream_nothing [OF ip cs no empty, of E start_placeholder st5]
    by (simp_all add: res mk_log_item_def log3_def)
qed

theorem final_report_needs_visible_text_witness:
  "createThread example_created = Inr (Str (js ''t1''))
   \<and> js_String (Str (js ''t1'')) = Some (js ''t1'')
   \<and> list_all frame_safe (feed (jsonParse example_env) [] example_chunks)
   \<and> extractInterruptPayload example_blank_report = Inr Null \<and> \<not> truthy Null
   \<and> extractCurrentStepFromThread example_blank_report = Inr []
   \<and> get (get example_blank_report (js ''values'')) (js ''final_report'') = Str [32, 9, LF]
   \<and> is_space 32 \<and> is_space 9 \<and> is_space LF
   \<and> extractFinalReportFromThread example_blank_report = []
   \<and> uiState (runWithUi (start example_env (js ''Topic'') example_created example_stream
                  (Response True 200 [] (Inr example_blank_report))) (initial_app [] None))
       = Done
   \<and> reportText (runWithUi (start example_env (js ''Topic'') example_created example_stream
                  (Response True 200 [] (Inr example_blank_report))) (initial_app [] None))
       = start_placeholder"
proof -
  have c: "createThread example_created = Inr (Str (js ''t1''))"
    by (simp add: createThread_def example_created_def)
  have f: "list_all frame_safe (feed (jsonParse example_env) [] example_chunks)"
    by (simp add: example_frames frame_safe_def)
  have n: "extractInterruptPayload example_blank_report = Inr Null"
    by (simp add: extractInterruptPayload_def example_blank_report_def candidate_payload_def js_or_def)
  have s: "extractCurrentStepFromThread example_blank_report = Inr []"
    by (simp add: extractCurrentStepFromThread_def example_blank_report_def js_or_def to_text_def)
  have g: "get (get example_blank_report (js ''values'')) (js ''final_report'') = Str [32, 9, LF]"
    by (simp add: example_blank_report_def)
  have w: "\<forall>c\<in>set [32, 9, LF]. is_space c"
    by (simp add: is_space_def)
  from final_report_needs_visible_text
         [of example_blank_report example_created "Str (js ''t1'')" "js ''t1''" example_stream
             200 "[]" "[]" example_chunks example_env
             "Response True 200 [] (Inr example_blank_report)"
             200 "[]" Null "[]" "[32, 9, LF]" "js ''Topic''" "initial_app [] None"]
       c f n s g w
  show ?thesis
    by (simp add: example_stream_def is_space_def)
qed

section \<open>Frames that mark the start of a stage\<close>

lemma find_first:
  "\<forall>x\<in>set pre. \<not> P x \<Longrightarrow> P v \<Longrightarrow> find P (pre @ v # post) = Some v"
  by (induction pre) simp_all

lemma updates_root_object:
  "truthy obj \<Longrightarrow> typeof obj = ''object'' \<Longrightarrow>
   truthy (updates_root obj) \<and> typeof (updates_root obj) = ''object''"
  by (simp add: updates_root_def Let_def)

lemma marker_step_nonempty: "is_start_marker v \<Longrightarrow> marker_step v \<noteq> []"
  by (auto simp add: is_start_marker_def marker_step_def split: jsval.splits)

text \<open>
  Claim C6, as amended. For a frame of the event \<^verbatim>\<open>updates\<close> whose payload is an object
  that yields no interrupt, whose \<^verbatim>\<open>values.current_step\<close>, if there is one, can be
  converted to a string, and whose update object (the \<^verbatim>\<open>updates\<close> field when that is an
  object, else the payload) holds a value that is an object with a non-blank string
  \<^verbatim>\<open>current_step\<close>, the handling of the frame raises no exception, sets the step to the
  trimmed \<^verbatim>\<open>current_step\<close> of the first such value in key order, shows the status card
  and changes nothing else: no log entry is made and the phase stays.
\<close>

theorem start_marker_sets_step_without_log:
  assumes ev: "f_event ev = js ''updates''"
    and obj: "truthy (f_data ev) \<and> typeof (f_data ev) = ''object''"
    and ni: "extractInterruptPayload (f_data ev) = Inr p \<and> \<not> truthy p"
    and cs: "js_String (get (get (f_data ev) (js ''values'')) (js ''current_step'')) = Some s"
    and vals: "own_values (updates_root (f_data ev)) = pre @ v # post"
    and pre: "\<forall>x\<in>set pre. \<not> is_start_marker x"
    and v: "is_start_marker v"
  shows "handleSseEvent E ev st = (None, st\<lparr>work := marker_step v, statusShown := True\<rparr>)
         \<and> marker_step v \<noteq> []
         \<and> logItems (snd (handleSseEvent E ev st)) = logItems st
         \<and> uiState (snd (handleSseEvent E ev st)) = uiState st"
proof -
  have root: "truthy (updates_root (f_data ev)) \<and> typeof (updates_root (f_data ev)) = ''object''"
    using obj updates_root_object by blast
  have pick: "pickCurrentStepFromUpdates (f_data ev) = marker_step v"
    using obj root vals find_first [OF pre v, of post]
    by (simp add: pickCurrentStepFromUpdates_def Let_def)
  have ne: "marker_step v \<noteq> []" using v by (rule marker_step_nonempty)
  from obj have is_obj: "(truthy (f_data ev) \<and> typeof (f_data ev) = ''object'') = True" by simp
  have eq: "handleSseEvent E ev st = (None, st\<lparr>work := marker_step v, statusShown := True\<rparr>)"
    using ev ni cs pick ne
    by (simp add: handleSseEvent_def Let_def SHOW_NOISY_SSE_def setWork_def setStatus_def
        values_step_eq is_obj)
  show ?thesis using eq ne by simp
qed

theorem start_marker_sets_step_without_log_witness:
  "f_event example_marker_frame = js ''updates''
   \<and> truthy (f_data example_marker_frame) \<and> typeof (f_data example_marker_frame) = ''object''
   \<and> extractInterruptPayload (f_data example_marker_frame) = Inr Null \<and> \<not> truthy Null
   \<and> js_String (get (get (f_data example_marker_frame) (js ''values'')) (js ''current_step''))
       = Some (js ''undefined'')
   \<and> own_values (updates_root (f_data example_marker_frame))
       = [] @ Obj [(js ''current_step'', Str (js ''research_agent''))] # []
   \<and> is_start_marker (Obj [(js ''current_step'', Str (js ''research_agent''))])
   \<and> handleSseEvent example_env example_marker_frame (initial_app [] None)
       = (None, (initial_app [] None)\<lparr>work := js ''research_agent'', statusShown := True\<rparr>)
   \<and> logItems (snd (handleSseEvent example_env example_marker_frame (initial_app [] None))) = []"
proof -
  have e: "f_event example_marker_frame = js ''updates''"
    by (simp add: example_marker_frame_def)
  have o: "truthy (f_data example_marker_frame) \<and> typeof (f_data example_marker_frame) = ''object''"
    by (simp add: example_marker_frame_def)
  have n: "extractInterruptPayload (f_data example_marker_frame) = Inr Null \<and> \<not> truthy Null"
    by (simp add: example_marker_frame_def extractInterruptPayload_def js_or_def)
  have c: "js_String (get (get (f_data example_marker_frame) (js ''values'')) (js ''current_step''))
       = Some (js ''undefined'')"
    by (simp add: example_marker_frame_def)
  have vs: "own_values (updates_root (f_data example_marker_frame))
       = [] @ Obj [(js ''current_step'', Str (js ''research_agent''))] # []"
    by (simp add: example_marker_frame_def own_values_def updates_root_def)
  have p: "\<forall>x\<in>set []. \<not> is_start_marker x" by simp
  have m: "is_start_marker (Obj [(js ''current_step'', Str (js ''research_agent''))])"
    by (simp add: is_start_marker_def trim_def is_space_def js_def)
  have ms: "marker_step (Obj [(js ''current_step'', Str (js ''research_agent''))]) = js ''research_agent''"
    by (simp add: marker_step_def trim_def is_space_def js_def)
  from start_marker_sets_step_without_log [OF e o n c vs p m, of example_env "initial_app [] None"]
       e o n c vs m ms
  show ?thesis by (simp add: initial_app_def)
qed

text \<open>
  Claim C6 as stated fails: a frame of the event \<^verbatim>\<open>updates\<close> whose payload holds the start
  marker of the example and also an interrupt is handled as an interrupt. The step is
  not set, the phase changes and a log entry is made.
\<close>

theorem start_marker_with_interrupt_counterexample:
  "f_event example_marker_interrupt_frame = js ''updates''
   \<and> is_start_marker (get (f_data example_marker_interrupt_frame) (js ''research_start''))
   \<and> fst (handleSseEvent example_env example_marker_interrupt_frame (initial_app [] None)) = None
   \<and> work (snd (handleSseEvent example_env example_marker_interrupt_frame (initial_app [] None)))
       = work (initial_app [] None)
   \<and> work (snd (handleSseEvent example_env example_marker_interrupt_frame (initial_app [] None)))
       \<noteq> js ''research_agent''
   \<and> uiState (snd (handleSseEvent example_env example_marker_interrupt_frame (initial_app [] None)))
       = WaitingApproval
   \<and> map tag (logItems (snd (handleSseEvent example_env example_marker_interrupt_frame (initial_app [] None))))
       = [js ''HITL'']"
proof -
  have i: "extractInterruptPayload (f_data example_marker_interrupt_frame) = Inr example_payload"
    by (simp add: example_marker_interrupt_frame_def extractInterruptPayload_def candidate_payload_def
        js_coalesce_def example_payload_def)
  have h: "handleSseEvent example_env example_marker_interrupt_frame (initial_app [] None)
             = showApprovalIfNeeded example_env example_payload (setStatus (initial_app [] None))"
    using i by (simp add: handleSseEvent_def Let_def example_marker_interrupt_frame_def example_payload_def)
  have e: "f_event example_marker_interrupt_frame = js ''updates''"
    by (simp add: example_marker_interrupt_frame_def)
  have m: "is_start_marker (get (f_data example_marker_interrupt_frame) (js ''research_start''))"
    by (simp add: example_marker_interrupt_frame_def is_start_marker_def trim_def is_space_def js_def)
  have sh: "fst (showApprovalIfNeeded example_env example_payload (setStatus (initial_app [] None))) = None"
    "work (snd (showApprovalIfNeeded example_env example_payload (setStatus (initial_app [] None)))) = []"
    "uiState (snd (showApprovalIfNeeded example_env example_payload (setStatus (initial_app [] None))))
       = WaitingApproval"
    "map tag (logItems (snd (showApprovalIfNeeded example_env example_payload (setStatus (initial_app [] None)))))
       = [js ''HITL'']"
    by (simp_all add: showApprovalIfNeeded_def example_payload_def js_or_def renderPreview_def
        initial_app_def setStatus_def setUiState_def addLogEntry_def unshift_capped_def
        MAX_LOG_ITEMS_def mk_log_item_def Let_def)
  have w: "work (initial_app [] None) = []" by (simp add: initial_app_def)
  show ?thesis
    unfolding h using e m sh w by simp
qed

section \<open>The session identifier\<close>

lemma start_created:
  assumes cr: "createThread createResp = Inr tid" and tt: "js_String tid = Some t"
  shows "threadId (snd (start E theme createResp streamResp threadResp st)) = tid
       \<and> stored_tid (snd (start E theme createResp streamResp threadResp st)) = Some t
       \<and> (\<exists>rest. requests (snd (start E theme createResp streamResp threadResp st))
                   = requests st @ [PostThreads, PostRunStream t (StartInput theme)] @ rest
                 \<and> (rest = [] \<or> rest = [GetThread t]))"
proof -
  let ?st3 = "addLogEntry
                (log3 (js ''START'') (js ''Started: '' @ [34] @ theme @ [34])
                   (js ''Started: '' @ [34] @ theme @ [34] @ js '' / thread_id='' @ t))
                (setStatus (setUiState Starting (setWork (js ''-'')
                   (addLogEntry
                      (log3 (js ''THREAD'') (js ''Created: thread_id='' @ t)
                         (js ''Created: thread_id='' @ t))
                      ((resetViewForRun st)\<lparr>requests := requests (resetViewForRun st) @ [PostThreads],
                          threadId := tid, stored_tid := Some t\<rparr>)))))"
  obtain r st4 where rs: "runStream E tid (StartInput theme) streamResp ?st3 = (r, st4)" by fastforce
  have k: "keeps (?st3\<lparr>requests := requests ?st3 @ [PostRunStream t (StartInput theme)]\<rparr>) st4"
    using runStream_keeps [OF tt, of ?st3 "StartInput theme" E streamResp] rs by simp
  have base: "threadId st4 = tid" "stored_tid st4 = Some t"
    "requests st4 = requests st @ [PostThreads, PostRunStream t (StartInput theme)]"
    using k by (simp_all add: keeps_def addLogEntry_def setStatus_def setUiState_def setWork_def
        resetViewForRun_def setError_def)
  show ?thesis
  proof (cases r)
    case (Some e)
    then have "snd (start E theme createResp streamResp threadResp st) = st4"
      using cr tt rs by (simp add: start_def ensureThreadIdFromServer_def Let_def)
    then show ?thesis using base by simp
  next
    case None
    obtain g st5 where gt: "getThread tid threadResp st4 = (g, st5)" by fastforce
    have st5: "st5 = st4\<lparr>requests := requests st4 @ [GetThread t]\<rparr>"
      using getThread_state [OF tt, of threadResp st4] gt by simp
    show ?thesis
    proof (cases g)
      case (Inl e)
      then have "snd (start E theme createResp streamResp threadResp st) = st5"
        using cr tt rs None gt by (simp add: start_def ensureThreadIdFromServer_def Let_def)
      then show ?thesis using base st5 by simp
    next
      case (Inr th)
      then have "snd (start E theme createResp streamResp threadResp st)
                   = snd (after_stream E start_placeholder th st5)"
        using cr tt rs None gt by (simp add: start_def ensureThreadIdFromServer_def Let_def)
      then show ?thesis using base st5 by (simp add: after_stream_frame)
    qed
  qed
qed



lemma resume_current:
  assumes cur: "truthy (threadId st)" and tt: "js_String (threadId st) = Some t"
  shows "threadId (snd (resume E decision createResp streamResp threadResp st)) = threadId st
       \<and> stored_tid (snd (resume E decision createResp streamResp threadResp st)) = stored_tid st
       \<and> (\<exists>rest. requests (snd (resume E decision createResp streamResp threadResp st))
                   = requests st @ [PostRunStream t (ResumeCommand decision)] @ rest
                 \<and> (rest = [] \<or> rest = [GetThread t]))"
proof -
  let ?tid = "threadId st"
  let ?st3 = "addLogEntry
                (log3 (js ''RESUME'') (js ''Input: '' @ decision)
                   (js ''Input: '' @ decision @ js '' / thread_id='' @ t))
                (setStatus (setUiState Resuming (resetViewForRun st)))"
  have tid: "threadId (resetViewForRun st) = ?tid"
    by (simp add: resetViewForRun_def setError_def)
  obtain r st4 where rs: "runStream E ?tid (ResumeCommand decision) streamResp ?st3 = (r, st4)" by fastforce
  have k: "keeps (?st3\<lparr>requests := requests ?st3 @ [PostRunStream t (ResumeCommand decision)]\<rparr>) st4"
    using runStream_keeps [OF tt, of ?st3 "ResumeCommand decision" E streamResp] rs by simp
  have base: "threadId st4 = ?tid" "stored_tid st4 = stored_tid st"
    "requests st4 = requests st @ [PostRunStream t (ResumeCommand decision)]"
    using k by (simp_all add: keeps_def addLogEntry_def setStatus_def setUiState_def setWork_def
        resetViewForRun_def setError_def)
  show ?thesis
  proof (cases r)
    case (Some e)
    then have "snd (resume E decision createResp streamResp threadResp st) = st4"
      using cur tt tid rs by (simp add: resume_def ensureThreadIdFromServer_def Let_def)
    then show ?thesis using base by simp
  next
    case None
    obtain g st5 where gt: "getThread ?tid threadResp st4 = (g, st5)" by fastforce
    have st5: "st5 = st4\<lparr>requests := requests st4 @ [GetThread t]\<rparr>"
      using getThread_state [OF tt, of threadResp st4] gt by simp
    show ?thesis
    proof (cases g)
      case (Inl e)
      then have "snd (resume E decision createResp streamResp threadResp st) = st5"
        using cur tt tid rs None gt by (simp add: resume_def ensureThreadIdFromServer_def Let_def)
      then show ?thesis using base st5 by simp
    next
      case (Inr th)
      then have "snd (resume E decision createResp streamResp threadResp st)
                   = snd (after_stream E resume_placeholder th st5)"
        using cur tt tid rs None gt by (simp add: resume_def ensureThreadIdFromServer_def Let_def)
      then show ?thesis using base st5 by (simp add: after_stream_frame)
    qed
  qed
qed



lemma on_error_frame:
  "threadId (on_error e s) = threadId s" "stored_tid (on_error e s) = stored_tid s"
  "requests (on_error e s) = requests s" "uiState (on_error e s) = Error"
  by (simp_all add: on_error_def Let_def addLogEntry_def setStatus_def setError_def setUiState_def)

lemma runWithUi_frame:
  "threadId (runWithUi fn st) = threadId (snd (fn (setError [] st)))"
  "stored_tid (runWithUi fn st) = stored_tid (snd (fn (setError [] st)))"
  "requests (runWithUi fn st) = requests (snd (fn (setError [] st)))"
  by (simp_all add: runWithUi_def on_error_frame split: prod.splits option.splits)


lemma ls_keeps_refl: "ls_keeps st st"
  by (simp add: ls_keeps_def)

lemma ls_keeps_addLog: "ls_keeps st x \<Longrightarrow> ls_keeps st (addLog t m x)"
  by (simp add: ls_keeps_def addLog_def)

lemma ls_keeps_setStatus: "ls_keeps st x \<Longrightarrow> ls_keeps st (ls_setStatus x)"
  by (simp add: ls_keeps_def ls_setStatus_def)

lemma ls_keeps_setUiState: "ls_keeps st x \<Longrightarrow> ls_keeps st (ls_setUiState p x)"
  by (simp add: ls_keeps_def ls_setUiState_def)

lemma ls_keeps_setError: "ls_keeps st x \<Longrightarrow> ls_keeps st (ls_setError m x)"
  by (simp add: ls_keeps_def ls_setError_def)

lemma ls_keeps_view:
  "ls_keeps st x \<Longrightarrow> ls_keeps st (x\<lparr>ls_approvalShown := a\<rparr>)"
  "ls_keeps st x \<Longrightarrow> ls_keeps st (x\<lparr>ls_reportShown := b\<rparr>)"
  "ls_keeps st x \<Longrightarrow> ls_keeps st (x\<lparr>ls_reportShown := b, ls_reportText := r\<rparr>)"
  "ls_keeps st x \<Longrightarrow> ls_keeps st (x\<lparr>ls_question := q, ls_preview := p\<rparr>)"
  by (simp_all add: ls_keeps_def)

lemma ls_keeps_if: "ls_keeps st a \<Longrightarrow> ls_keeps st b \<Longrightarrow> ls_keeps st (if c then a else b)"
  by simp

lemma ls_keeps_snd_pair: "ls_keeps st x \<Longrightarrow> ls_keeps st (snd (e, x))"
  by simp

lemma ls_keeps_snd_if:
  "ls_keeps st (snd a) \<Longrightarrow> ls_keeps st (snd b) \<Longrightarrow> ls_keeps st (snd (if c then a else b))"
  by simp

lemma ls_keeps_snd_sum:
  "(\<And>e. ls_keeps st (snd (f e))) \<Longrightarrow> (\<And>x. ls_keeps st (snd (g x)))
   \<Longrightarrow> ls_keeps st (snd (case s of Inl e \<Rightarrow> f e | Inr x \<Rightarrow> g x))"
  by (cases s) simp_all

lemma ls_keeps_snd_option:
  "ls_keeps st (snd a) \<Longrightarrow> (\<And>x. ls_keeps st (snd (g x)))
   \<Longrightarrow> ls_keeps st (snd (case s of None \<Rightarrow> a | Some x \<Rightarrow> g x))"
  by (cases s) simp_all

lemma adopt_thread_id_state:
  "ls_requests (snd (adopt_thread_id out st)) = ls_requests st"
  "ls_threadId (snd (adopt_thread_id out st))
     = (if truthy (get out (js ''thread_id'')) then get out (js ''thread_id'') else ls_threadId st)"
  "ls_stored_tid (snd (adopt_thread_id out st))
     = (if truthy (get out (js ''thread_id''))
        then (case js_String (get out (js ''thread_id'')) of
                Some t \<Rightarrow> Some t | None \<Rightarrow> ls_stored_tid st)
        else ls_stored_tid st)"
  by (simp_all add: adopt_thread_id_def split: option.splits)

lemma ls_after_invoke_keeps:
  "nullish data \<or> ls_keeps (snd (adopt_thread_id (get data (js ''output'')) st))
     (snd (ls_after_invoke what hitl data st))"
proof (cases "nullish data")
  case True
  then show ?thesis by simp
next
  case False
  obtain r st1 where a: "adopt_thread_id (get data (js ''output'')) st = (r, st1)" by fastforce
  have "ls_keeps st1 (snd (ls_after_invoke what hitl data st))"
    unfolding ls_after_invoke_def Let_def a
    using False
    apply (cases r)
     apply simp_all
     apply (intro ls_keeps_snd_sum ls_keeps_snd_option ls_keeps_snd_if ls_keeps_snd_pair
        ls_keeps_addLog ls_keeps_setError ls_keeps_view ls_keeps_setUiState ls_keeps_setStatus
        ls_keeps_refl)
    apply (rule ls_keeps_refl)
    done
  then show ?thesis using a by simp
qed


lemma ls_after_invoke_state:
  "ls_requests (snd (ls_after_invoke what hitl data st)) = ls_requests st"
  "ls_threadId (snd (ls_after_invoke what hitl data st))
     = (if truthy (get (get data (js ''output'')) (js ''thread_id''))
        then get (get data (js ''output'')) (js ''thread_id'') else ls_threadId st)"
  "ls_stored_tid (snd (ls_after_invoke what hitl data st))
     = (if truthy (get (get data (js ''output'')) (js ''thread_id''))
        then (case js_String (get (get data (js ''output'')) (js ''thread_id'')) of
                Some t \<Rightarrow> Some t | None \<Rightarrow> ls_stored_tid st)
        else ls_stored_tid st)"
proof -
  have "ls_requests (snd (ls_after_invoke what hitl data st)) = ls_requests st
    \<and> ls_threadId (snd (ls_after_invoke what hitl data st))
     = (if truthy (get (get data (js ''output'')) (js ''thread_id''))
        then get (get data (js ''output'')) (js ''thread_id'') else ls_threadId st)
    \<and> ls_stored_tid (snd (ls_after_invoke what hitl data st))
     = (if truthy (get (get data (js ''output'')) (js ''thread_id''))
        then (case js_String (get (get data (js ''output'')) (js ''thread_id'')) of
                Some t \<Rightarrow> Some t | None \<Rightarrow> ls_stored_tid st)
        else ls_stored_tid st)"
  proof (cases "nullish data")
    case True
    then have "get data (js ''output'') = Undefined" by (cases data) simp_all
    then show ?thesis using True by (simp add: ls_after_invoke_def)
  next
    case False
    then have "ls_keeps (snd (adopt_thread_id (get data (js ''output'')) st))
                 (snd (ls_after_invoke what hitl data st))"
      using ls_after_invoke_keeps [of data st what hitl] by simp
    then show ?thesis by (simp add: ls_keeps_def adopt_thread_id_state)
  qed
  then show "ls_requests (snd (ls_after_invoke what hitl data st)) = ls_requests st"
    and "ls_threadId (snd (ls_after_invoke what hitl data st))
     = (if truthy (get (get data (js ''output'')) (js ''thread_id''))
        then get (get data (js ''output'')) (js ''thread_id'') else ls_threadId st)"
    and "ls_stored_tid (snd (ls_after_invoke what hitl data st))
     = (if truthy (get (get data (js ''output'')) (js ''thread_id''))
        then (case js_String (get (get data (js ''output'')) (js ''thread_id'')) of
                Some t \<Rightarrow> Some t | None \<Rightarrow> ls_stored_tid st)
        else ls_stored_tid st)"
    by simp_all
qed

lemma ls_on_error_frame:
  "ls_threadId (ls_on_error e s) = ls_threadId s" "ls_stored_tid (ls_on_error e s) = ls_stored_tid s"
  "ls_requests (ls_on_error e s) = ls_requests s" "ls_uiState (ls_on_error e s) = Error"
  by (simp_all add: ls_on_error_def Let_def addLog_def ls_setStatus_def ls_setError_def ls_setUiState_def)

lemma ls_runWithUi_frame:
  "ls_threadId (ls_runWithUi fn st) = ls_threadId (snd (fn (ls_setError [] st)))"
  "ls_stored_tid (ls_runWithUi fn st) = ls_stored_tid (snd (fn (ls_setError [] st)))"
  "ls_requests (ls_runWithUi fn st) = ls_requests (snd (fn (ls_setError [] st)))"
  by (simp_all add: ls_runWithUi_def ls_on_error_frame split: prod.splits option.splits)


lemma ensureThreadId_result:
  "ensureThreadId fresh (ls_resetViewForRun st)
     = (ls_tid0 fresh st,
        if truthy (ls_threadId st) then ls_resetViewForRun st
        else (ls_resetViewForRun st)\<lparr>ls_threadId := Str fresh, ls_stored_tid := Some fresh\<rparr>)"
  by (simp add: ensureThreadId_def ls_tid0_def ls_resetViewForRun_def ls_setError_def)

lemma ls_start_sent:
  assumes tt: "js_String (ls_tid0 fresh st) = Some t"
  shows "\<exists>st4. ls_start E theme fresh resp st
                 = (case callInvoke E resp of
                      Inl e \<Rightarrow> (Some e, st4)
                    | Inr data \<Rightarrow>
                        ls_after_invoke ''start''
                          (js ''Waiting for approval (please respond using the buttons).'') data st4)
            \<and> ls_requests st4 = ls_requests st @ [Invoke (js ''start'') (ls_tid0 fresh st) theme]
            \<and> ls_threadId st4 = ls_tid0 fresh st
            \<and> ls_stored_tid st4 = (if truthy (ls_threadId st) then ls_stored_tid st else Some fresh)"
proof -
  let ?st1 = "if truthy (ls_threadId st) then ls_resetViewForRun st
              else (ls_resetViewForRun st)\<lparr>ls_threadId := Str fresh, ls_stored_tid := Some fresh\<rparr>"
  let ?st3 = "addLog (js ''START'')
                (js ''Started: '' @ [34] @ theme @ [34] @ js '' / thread_id='' @ t)
                (ls_setStatus (ls_setUiState Starting ?st1))"
  let ?st4 = "?st3\<lparr>ls_requests := ls_requests ?st3 @ [Invoke (js ''start'') (ls_tid0 fresh st) theme]\<rparr>"
  have "ls_start E theme fresh resp st
          = (case callInvoke E resp of
               Inl e \<Rightarrow> (Some e, ?st4)
             | Inr data \<Rightarrow>
                 ls_after_invoke ''start''
                   (js ''Waiting for approval (please respond using the buttons).'') data ?st4)"
    using tt by (cases "callInvoke E resp") (simp_all add: ls_start_def ensureThreadId_result Let_def)
  moreover have "ls_requests ?st4 = ls_requests st @ [Invoke (js ''start'') (ls_tid0 fresh st) theme]"
    "ls_threadId ?st4 = ls_tid0 fresh st"
    "ls_stored_tid ?st4 = (if truthy (ls_threadId st) then ls_stored_tid st else Some fresh)"
    by (simp_all add: ls_tid0_def ls_setStatus_def ls_setUiState_def ls_resetViewForRun_def
        ls_setError_def addLog_def)
  ultimately show ?thesis by blast
qed


lemma ls_resume_sent:
  assumes cur: "truthy (ls_threadId st)" and tt: "js_String (ls_threadId st) = Some t"
  shows "\<exists>st4. ls_resume E decision fresh resp st
                 = (case callInvoke E resp of
                      Inl e \<Rightarrow> (Some e, st4)
                    | Inr data \<Rightarrow>
                        ls_after_invoke ''resume'' (js ''Waiting for approval again.'') data st4)
            \<and> ls_requests st4 = ls_requests st @ [Invoke (js ''resume'') (ls_threadId st) decision]
            \<and> ls_threadId st4 = ls_threadId st
            \<and> ls_stored_tid st4 = ls_stored_tid st"
proof -
  let ?st3 = "addLog (js ''RESUME'') (js ''Input: '' @ decision @ js '' / thread_id='' @ t)
                (ls_setStatus (ls_setUiState Resuming (ls_resetViewForRun st)))"
  let ?st4 = "?st3\<lparr>ls_requests := ls_requests ?st3 @ [Invoke (js ''resume'') (ls_threadId st) decision]\<rparr>"
  have tid: "ls_threadId (ls_resetViewForRun st) = ls_threadId st"
    by (simp add: ls_resetViewForRun_def ls_setError_def)
  have "ls_resume E decision fresh resp st
          = (case callInvoke E resp of
               Inl e \<Rightarrow> (Some e, ?st4)
             | Inr data \<Rightarrow>
                 ls_after_invoke ''resume'' (js ''Waiting for approval again.'') data ?st4)"
    using cur tt tid by (cases "callInvoke E resp") (simp_all add: ls_resume_def Let_def)
  moreover have "ls_requests ?st4 = ls_requests st @ [Invoke (js ''resume'') (ls_threadId st) decision]"
    "ls_threadId ?st4 = ls_threadId st" "ls_stored_tid ?st4 = ls_stored_tid st"
    by (simp_all add: ls_setStatus_def ls_setUiState_def ls_resetViewForRun_def
        ls_setError_def addLog_def)
  ultimately show ?thesis by blast
qed

lemma ls_start_requests:
  assumes "js_String (ls_tid0 fresh st) = Some t"
  shows "ls_requests (snd (ls_start E theme fresh resp st))
           = ls_requests st @ [Invoke (js ''start'') (ls_tid0 fresh st) theme]"
  using ls_start_sent [OF assms, of E theme resp]
  by (cases "callInvoke E resp") (auto simp add: ls_after_invoke_state)

lemma ls_resume_requests:
  assumes "truthy (ls_threadId st)" and "js_String (ls_threadId st) = Some t"
  shows "ls_requests (snd (ls_resume E decision fresh resp st))
           = ls_requests st @ [Invoke (js ''resume'') (ls_threadId st) decision]"
  using ls_resume_sent [OF assms, of E decision fresh resp]
  by (cases "callInvoke E resp") (auto simp add: ls_after_invoke_state)

lemma setError_Nil_ids:
  "threadId (setError [] st) = threadId st" "stored_tid (setError [] st) = stored_tid st"
  "requests (setError [] st) = requests st"
  by (simp_all add: setError_def)

lemma ls_setError_Nil_ids:
  "ls_threadId (ls_setError [] st) = ls_threadId st" "ls_stored_tid (ls_setError [] st) = ls_stored_tid st"
  "ls_requests (ls_setError [] st) = ls_requests st"
  by (simp_all add: ls_setError_def)

text \<open>
  Claim C1, as amended. In the streaming client a start whose thread is created uses the
  identifier that the server returns, a value with a text \<open>t\<close>: it becomes the
  identifier in memory and in storage, whatever was there, and the requests of the start
  are the creation of the thread, the stream on that identifier and, when the stream
  ends, the fetch of its snapshot. Whether the identifier differs from earlier ones is
  the server's matter; the client does not compare. A resume with an identifier in
  memory sends its requests on that identifier, creates no thread and leaves the
  identifier in memory and in storage as they were. In the request/response client a
  start sends the identifier in memory when there is one and a newly generated one only
  when there is none, and a resume sends the identifier in memory.
\<close>

theorem session_identifier_of_start_and_resume:
  "(createThread createResp = Inr tid \<and> js_String tid = Some t \<longrightarrow>
      threadId (runWithUi (start E theme createResp streamResp threadResp) st) = tid
      \<and> stored_tid (runWithUi (start E theme createResp streamResp threadResp) st) = Some t
      \<and> (\<exists>rest. requests (runWithUi (start E theme createResp streamResp threadResp) st)
                   = requests st @ [PostThreads, PostRunStream t (StartInput theme)] @ rest
                 \<and> (rest = [] \<or> rest = [GetThread t])))
   \<and> (truthy (threadId st) \<and> js_String (threadId st) = Some t \<longrightarrow>
      threadId (handleDecision E decision createResp streamResp threadResp st) = threadId st
      \<and> stored_tid (handleDecision E decision createResp streamResp threadResp st) = stored_tid st
      \<and> (\<exists>rest. requests (handleDecision E decision createResp streamResp threadResp st)
                   = requests st @ [PostRunStream t (ResumeCommand decision)] @ rest
                 \<and> (rest = [] \<or> rest = [GetThread t])))
   \<and> (js_String (if truthy (ls_threadId ls) then ls_threadId ls else Str fresh) = Some t \<longrightarrow>
      ls_requests (ls_runWithUi (ls_start E theme fresh resp) ls)
        = ls_requests ls @ [Invoke (js ''start'') (if truthy (ls_threadId ls) then ls_threadId ls else Str fresh) theme])
   \<and> (truthy (ls_threadId ls) \<and> js_String (ls_threadId ls) = Some t \<longrightarrow>
      ls_requests (ls_handleDecision E decision fresh resp ls)
        = ls_requests ls @ [Invoke (js ''resume'') (ls_threadId ls) decision])"
proof (intro conjI impI)
  assume a: "createThread createResp = Inr tid \<and> js_String tid = Some t"
  then have cr: "createThread createResp = Inr tid" and tt: "js_String tid = Some t" by simp_all
  from start_created [OF cr tt, of E theme streamResp threadResp "setError [] st"]
  show "threadId (runWithUi (start E theme createResp streamResp threadResp) st) = tid"
    and "stored_tid (runWithUi (start E theme createResp streamResp threadResp) st) = Some t"
    and "\<exists>rest. requests (runWithUi (start E theme createResp streamResp threadResp) st)
                   = requests st @ [PostThreads, PostRunStream t (StartInput theme)] @ rest
                 \<and> (rest = [] \<or> rest = [GetThread t])"
    by (simp_all add: runWithUi_frame setError_Nil_ids)
next
  assume a: "truthy (threadId st) \<and> js_String (threadId st) = Some t"
  let ?s0 = "setError [] (setUiState Resuming st)"
  have ids: "threadId ?s0 = threadId st" "stored_tid ?s0 = stored_tid st" "requests ?s0 = requests st"
    by (simp_all add: setError_def setUiState_def)
  have cur0: "truthy (threadId ?s0)" and tt0: "js_String (threadId ?s0) = Some t"
    using a ids by simp_all
  from resume_current [OF cur0 tt0, of E decision createResp streamResp threadResp]
  show "threadId (handleDecision E decision createResp streamResp threadResp st) = threadId st"
    and "stored_tid (handleDecision E decision createResp streamResp threadResp st) = stored_tid st"
    and "\<exists>rest. requests (handleDecision E decision createResp streamResp threadResp st)
                   = requests st @ [PostRunStream t (ResumeCommand decision)] @ rest
                 \<and> (rest = [] \<or> rest = [GetThread t])"
    by (simp_all add: handleDecision_def runWithUi_frame ids)
next
  assume a: "js_String (if truthy (ls_threadId ls) then ls_threadId ls else Str fresh) = Some t"
  have t0: "ls_tid0 fresh (ls_setError [] ls) = (if truthy (ls_threadId ls) then ls_threadId ls else Str fresh)"
    by (simp add: ls_tid0_def ls_setError_Nil_ids)
  show "ls_requests (ls_runWithUi (ls_start E theme fresh resp) ls)
       = ls_requests ls @ [Invoke (js ''start'') (if truthy (ls_threadId ls) then ls_threadId ls else Str fresh) theme]"
    using ls_start_requests [of fresh "ls_setError [] ls" t E theme resp] a
    by (simp add: ls_runWithUi_frame t0 ls_setError_Nil_ids)
next
  assume a: "truthy (ls_threadId ls) \<and> js_String (ls_threadId ls) = Some t"
  let ?s0 = "ls_setError [] (ls_setUiState Resuming ls)"
  have ids: "ls_threadId ?s0 = ls_threadId ls" "ls_requests ?s0 = ls_requests ls"
    by (simp_all add: ls_setError_def ls_setUiState_def)
  have cur0: "truthy (ls_threadId ?s0)" and tt0: "js_String (ls_threadId ?s0) = Some t"
    using a ids by simp_all
  show "ls_requests (ls_handleDecision E decision fresh resp ls)
        = ls_requests ls @ [Invoke (js ''resume'') (ls_threadId ls) decision]"
    using ls_resume_requests [OF cur0 tt0, of E decision fresh resp]
    by (simp add: ls_handleDecision_def ls_runWithUi_frame ids)
qed

theorem session_identifier_of_start_and_resume_witness:
  "createThread example_created = Inr (Str (js ''t1''))
   \<and> js_String (Str (js ''t1'')) = Some (js ''t1'')
   \<and> threadId (runWithUi (start example_env (js ''Topic'') example_created example_stream
                  (Response True 200 [] (Inr example_reported)))
                  ((initial_app [] (Some (js ''t0'')))\<lparr>threadId := Str (js ''t0'')\<rparr>))
       = Str (js ''t1'')
   \<and> stored_tid (runWithUi (start example_env (js ''Topic'') example_created example_stream
                  (Response True 200 [] (Inr example_reported)))
                  ((initial_app [] (Some (js ''t0'')))\<lparr>threadId := Str (js ''t0'')\<rparr>))
       = Some (js ''t1'')
   \<and> truthy (threadId ((initial_app [] (Some (js ''t0'')))\<lparr>threadId := Str (js ''t0'')\<rparr>))
   \<and> js_String (threadId ((initial_app [] (Some (js ''t0'')))\<lparr>threadId := Str (js ''t0'')\<rparr>))
       = Some (js ''t0'')
   \<and> threadId (handleDecision example_env (js ''retry'') example_created example_stream
                  (Response True 200 [] (Inr example_reported))
                  ((initial_app [] (Some (js ''t0'')))\<lparr>threadId := Str (js ''t0'')\<rparr>))
       = Str (js ''t0'')
   \<and> stored_tid (handleDecision example_env (js ''retry'') example_created example_stream
                  (Response True 200 [] (Inr example_reported))
                  ((initial_app [] (Some (js ''t0'')))\<lparr>threadId := Str (js ''t0'')\<rparr>))
       = Some (js ''t0'')
   \<and> truthy (ls_threadId ((ls_initial_app [] (Some (js ''t0'')))\<lparr>ls_threadId := Str (js ''t0'')\<rparr>))
   \<and> js_String (ls_threadId ((ls_initial_app [] (Some (js ''t0'')))\<lparr>ls_threadId := Str (js ''t0'')\<rparr>))
       = Some (js ''t0'')
   \<and> ls_requests (ls_runWithUi (ls_start example_env (js ''Topic'') (js ''t-new'')
                  (LsFetchFails example_failure None))
                  ((ls_initial_app [] (Some (js ''t0'')))\<lparr>ls_threadId := Str (js ''t0'')\<rparr>))
       = [Invoke (js ''start'') (Str (js ''t0'')) (js ''Topic'')]
   \<and> ls_requests (ls_handleDecision example_env (js ''retry'') (js ''t-new'')
                  (LsFetchFails example_failure None)
                  ((ls_initial_app [] (Some (js ''t0'')))\<lparr>ls_threadId := Str (js ''t0'')\<rparr>))
       = [Invoke (js ''resume'') (Str (js ''t0'')) (js ''retry'')]"
proof -
  have c: "createThread example_created = Inr (Str (js ''t1''))"
    by (simp add: createThread_def example_created_def)
  from session_identifier_of_start_and_resume
         [of example_created "Str (js ''t1'')" "js ''t1''" example_env "js ''Topic''" example_stream
             "Response True 200 [] (Inr example_reported)"
             "(initial_app [] (Some (js ''t0'')))\<lparr>threadId := Str (js ''t0'')\<rparr>"]
       session_identifier_of_start_and_resume
         [of example_created _ "js ''t0''" example_env "js ''Topic''" example_stream
             "Response True 200 [] (Inr example_reported)"
             "(initial_app [] (Some (js ''t0'')))\<lparr>threadId := Str (js ''t0'')\<rparr>"
             "js ''retry''"
             "(ls_initial_app [] (Some (js ''t0'')))\<lparr>ls_threadId := Str (js ''t0'')\<rparr>"
             "js ''t-new''" "LsFetchFails example_failure None"]
       c
  show ?thesis by (simp add: initial_app_def ls_initial_app_def)
qed

text \<open>
  Claim C1 as stated fails in the request/response client: after a reload with the
  stored identifier \<^verbatim>\<open>t-old\<close>, a start sends \<^verbatim>\<open>t-old\<close> and not the new identifier that
  the generator would give.
\<close>

theorem start_reuses_identifier_counterexample:
  "ls_threadId (ls_init (ls_initial_app [] (Some (js ''t-old'')))) = Str (js ''t-old'')
   \<and> ls_requests (ls_runWithUi
        (ls_start example_env (js ''Topic'') (js ''t-new'')
           (LsResponse True 200 []
              (Inr (Obj [(js ''output'', Obj [(js ''status'', Str (js ''completed'')), (js ''report'', Str (js ''Plan''))])]))))
        (ls_init (ls_initial_app [] (Some (js ''t-old'')))))
      = [Invoke (js ''start'') (Str (js ''t-old'')) (js ''Topic'')]"
proof -
  have i: "ls_threadId (ls_init (ls_initial_app [] (Some (js ''t-old'')))) = Str (js ''t-old'')"
    "ls_requests (ls_init (ls_initial_app [] (Some (js ''t-old'')))) = []"
    by (simp_all add: ls_init_def restoreThreadId_def ls_initial_app_def addLog_def ls_setUiState_def
        Let_def)
  have t0: "ls_tid0 (js ''t-new'') (ls_setError [] (ls_init (ls_initial_app [] (Some (js ''t-old'')))))
              = Str (js ''t-old'')"
    using i by (simp add: ls_tid0_def ls_setError_Nil_ids)
  have "js_String (ls_tid0 (js ''t-new'') (ls_setError [] (ls_init (ls_initial_app [] (Some (js ''t-old''))))))
          = Some (js ''t-old'')"
    by (simp add: t0)
  from ls_start_requests [OF this] i t0
  show ?thesis by (simp add: ls_runWithUi_frame ls_setError_Nil_ids)
qed

section \<open>The stored session at start\<close>

lemma initAsync_try_requests:
  "requests (snd (initAsync_try E t resp st)) = requests st @ [GetThread t]"
  by (simp add: initAsync_try_def getThread_def Let_def setWork_def setUiState_def setStatus_def
      addLogEntry_def split: http_result.splits sum.splits option.splits)

lemma initAsync_try_restores:
  assumes "resp = Response True status body (Inr t)"
    and "extractInterruptPayload t = Inr p" and "truthy p"
    and "extractCurrentStepFromThread t = Inr s"
    and "js_String (js_or (get p (js ''question'')) (Str (js ''Approve?''))) = Some q"
    and "renderPreview (js_or (get p (js ''analysis_preview'')) (Arr [])) = None"
  shows "fst (initAsync_try E tid resp st) = None"
    and "uiState (snd (initAsync_try E tid resp st)) = WaitingApproval"
    and "threadId (snd (initAsync_try E tid resp st)) = Str tid"
    and "stored_tid (snd (initAsync_try E tid resp st)) = stored_tid st"
    and "approvalShown (snd (initAsync_try E tid resp st))"
    and "question (snd (initAsync_try E tid resp st)) = q"
    and "preview (snd (initAsync_try E tid resp st)) = js_or (get p (js ''analysis_preview'')) (Arr [])"
  using assms
  by (simp_all add: initAsync_try_def getThread_def Let_def setWork_def setUiState_def setStatus_def
      addLogEntry_def)

lemma initAsync_try_discards:
  assumes "resp = Response True status body (Inr t)
          \<and> extractInterruptPayload t = Inr p \<and> \<not> truthy p
          \<and> extractCurrentStepFromThread t = Inr s
        \<or> resp = Response True status body (Inr t) \<and> extractInterruptPayload t = Inl e
        \<or> resp = Response True status body (Inr t)
          \<and> extractInterruptPayload t = Inr p \<and> extractCurrentStepFromThread t = Inl e
        \<or> resp = Response True status body (Inl e)
        \<or> resp = Response False status body j
        \<or> resp = FetchFails e"
  shows "(fst (initAsync_try E tid resp st) \<noteq> None
          \<or> stored_tid (snd (initAsync_try E tid resp st)) = None)
         \<and> threadId (snd (initAsync_try E tid resp st)) = threadId st
         \<and> uiState (snd (initAsync_try E tid resp st)) = uiState st"
  using assms
  by (auto simp add: initAsync_try_def getThread_def Let_def setWork_def setUiState_def setStatus_def
      addLogEntry_def)

lemma initAsync_saved:
  assumes saved: "stored_tid st = Some tid" and ne: "tid \<noteq> []"
  shows "initAsync E resp st
           = (case initAsync_try E tid resp
                     (addLogEntry
                        (log3 (js ''UI'') (js ''App loaded. API: '' @ API_BASE E)
                           (js ''App loaded. API: '' @ API_BASE E))
                        (setWork (js ''-'') (setUiState Idle st))) of
                (None, st2) \<Rightarrow> st2
              | (Some e, st2) \<Rightarrow> initAsync_catch e st2)"
  using saved ne
  by (simp add: initAsync_def restoreThreadId_def Let_def addLogEntry_def setWork_def setUiState_def)

lemma initAsync_catch_state:
  "stored_tid (initAsync_catch e s) = None" "threadId (initAsync_catch e s) = threadId s"
  "uiState (initAsync_catch e s) = uiState s" "requests (initAsync_catch e s) = requests s"
  by (simp_all add: initAsync_catch_def addLogEntry_def)

text \<open>
  Claim C2, as amended. The streaming client, loaded with a stored identifier, fetches
  the snapshot of that identifier once. When the fetch succeeds, the snapshot yields an
  interrupt and its current step, and the question and the preview of the interrupt can
  be shown, the phase is waiting for approval with that question and that preview, and
  the identifier is in memory and stays in storage. When the snapshot yields no
  interrupt, or the check fails (the reading of the snapshot raises, the body is not
  JSON, the answer is not successful, there is no answer), the stored identifier is
  removed, the identifier in memory is left as it was and the phase is idle. The
  request/response client, loaded with a stored identifier, sends nothing and takes the
  identifier into memory, in the phase idle.
\<close>

theorem persisted_session_checked_at_start:
  assumes saved: "stored_tid st = Some tid" and ne: "tid \<noteq> []"
  shows "requests (initAsync E resp st) = requests st @ [GetThread tid]
    \<and> (resp = Response True status body (Inr t)
        \<and> extractInterruptPayload t = Inr p \<and> truthy p
        \<and> extractCurrentStepFromThread t = Inr s
        \<and> js_String (js_or (get p (js ''question'')) (Str (js ''Approve?''))) = Some q
        \<and> renderPreview (js_or (get p (js ''analysis_preview'')) (Arr [])) = None \<longrightarrow>
         uiState (initAsync E resp st) = WaitingApproval
         \<and> threadId (initAsync E resp st) = Str tid
         \<and> stored_tid (initAsync E resp st) = Some tid
         \<and> approvalShown (initAsync E resp st)
         \<and> question (initAsync E resp st) = q
         \<and> preview (initAsync E resp st) = js_or (get p (js ''analysis_preview'')) (Arr []))
    \<and> (resp = Response True status body (Inr t)
          \<and> extractInterruptPayload t = Inr p \<and> \<not> truthy p
          \<and> extractCurrentStepFromThread t = Inr s
        \<or> resp = Response True status body (Inr t) \<and> extractInterruptPayload t = Inl e
        \<or> resp = Response True status body (Inr t)
          \<and> extractInterruptPayload t = Inr p \<and> extractCurrentStepFromThread t = Inl e
        \<or> resp = Response True status body (Inl e)
        \<or> resp = Response False status body j
        \<or> resp = FetchFails e \<longrightarrow>
         stored_tid (initAsync E resp st) = None
         \<and> threadId (initAsync E resp st) = threadId st
         \<and> uiState (initAsync E resp st) = Idle)
    \<and> (ls_stored_tid ls = Some tid \<longrightarrow>
         ls_requests (ls_init ls) = ls_requests ls
         \<and> ls_threadId (ls_init ls) = Str tid
         \<and> ls_stored_tid (ls_init ls) = Some tid
         \<and> ls_uiState (ls_init ls) = Idle)"
proof -
  let ?st1 = "addLogEntry
                (log3 (js ''UI'') (js ''App loaded. API: '' @ API_BASE E)
                   (js ''App loaded. API: '' @ API_BASE E))
                (setWork (js ''-'') (setUiState Idle st))"
  have st1: "requests ?st1 = requests st" "threadId ?st1 = threadId st" "uiState ?st1 = Idle"
    "stored_tid ?st1 = Some tid"
    using saved by (simp_all add: addLogEntry_def setWork_def setUiState_def)
  obtain r st2 where tr: "initAsync_try E tid resp ?st1 = (r, st2)" by fastforce
  have res: "initAsync E resp st = (case r of None \<Rightarrow> st2 | Some e \<Rightarrow> initAsync_catch e st2)"
    using initAsync_saved [OF saved ne, of E resp] tr by (simp split: option.splits)
  have rq: "requests (initAsync E resp st) = requests st @ [GetThread tid]"
    using initAsync_try_requests [of E tid resp ?st1] tr st1
    by (simp add: res initAsync_catch_state split: option.splits)
  have restore: "uiState (initAsync E resp st) = WaitingApproval
         \<and> threadId (initAsync E resp st) = Str tid
         \<and> stored_tid (initAsync E resp st) = Some tid
         \<and> approvalShown (initAsync E resp st)
         \<and> question (initAsync E resp st) = q
         \<and> preview (initAsync E resp st) = js_or (get p (js ''analysis_preview'')) (Arr [])"
    if a: "resp = Response True status body (Inr t)
        \<and> extractInterruptPayload t = Inr p \<and> truthy p
        \<and> extractCurrentStepFromThread t = Inr s
        \<and> js_String (js_or (get p (js ''question'')) (Str (js ''Approve?''))) = Some q
        \<and> renderPreview (js_or (get p (js ''analysis_preview'')) (Arr [])) = None"
  proof -
    from a have h: "resp = Response True status body (Inr t)" "extractInterruptPayload t = Inr p"
      "truthy p" "extractCurrentStepFromThread t = Inr s"
      "js_String (js_or (get p (js ''question'')) (Str (js ''Approve?''))) = Some q"
      "renderPreview (js_or (get p (js ''analysis_preview'')) (Arr [])) = None"
      by simp_all
    show ?thesis
      using initAsync_try_restores [OF h, of E tid ?st1] tr st1 by (simp add: res)
  qed
  have discard: "stored_tid (initAsync E resp st) = None
         \<and> threadId (initAsync E resp st) = threadId st
         \<and> uiState (initAsync E resp st) = Idle"
    if a: "resp = Response True status body (Inr t)
          \<and> extractInterruptPayload t = Inr p \<and> \<not> truthy p
          \<and> extractCurrentStepFromThread t = Inr s
        \<or> resp = Response True status body (Inr t) \<and> extractInterruptPayload t = Inl e
        \<or> resp = Response True status body (Inr t)
          \<and> extractInterruptPayload t = Inr p \<and> extractCurrentStepFromThread t = Inl e
        \<or> resp = Response True status body (Inl e)
        \<or> resp = Response False status body j
        \<or> resp = FetchFails e"
    using initAsync_try_discards [OF a, of E tid ?st1] tr st1
    by (cases r) (simp_all add: res initAsync_catch_state)
  have ls: "ls_stored_tid ls = Some tid \<longrightarrow>
         ls_requests (ls_init ls) = ls_requests ls
         \<and> ls_threadId (ls_init ls) = Str tid
         \<and> ls_stored_tid (ls_init ls) = Some tid
         \<and> ls_uiState (ls_init ls) = Idle"
    using ne by (simp add: ls_init_def restoreThreadId_def addLog_def ls_setUiState_def Let_def)
  from rq restore discard ls show ?thesis by blast
qed

theorem persisted_session_checked_at_start_witness:
  "stored_tid (initial_app [] (Some (js ''t1''))) = Some (js ''t1'')
   \<and> js ''t1'' \<noteq> []
   \<and> extractInterruptPayload example_interrupted = Inr example_payload
   \<and> truthy example_payload
   \<and> extractCurrentStepFromThread example_interrupted = Inr []
   \<and> js_String (js_or (get example_payload (js ''question'')) (Str (js ''Approve?''))) = Some (js ''Go?'')
   \<and> renderPreview (js_or (get example_payload (js ''analysis_preview'')) (Arr [])) = None
   \<and> requests (initAsync example_env (Response True 200 [] (Inr example_interrupted))
                  (initial_app [] (Some (js ''t1''))))
       = [GetThread (js ''t1'')]
   \<and> uiState (initAsync example_env (Response True 200 [] (Inr example_interrupted))
                  (initial_app [] (Some (js ''t1''))))
       = WaitingApproval
   \<and> threadId (initAsync example_env (Response True 200 [] (Inr example_interrupted))
                  (initial_app [] (Some (js ''t1''))))
       = Str (js ''t1'')
   \<and> stored_tid (initAsync example_env (Response True 200 [] (Inr example_interrupted))
                  (initial_app [] (Some (js ''t1''))))
       = Some (js ''t1'')
   \<and> question (initAsync example_env (Response True 200 [] (Inr example_interrupted))
                  (initial_app [] (Some (js ''t1''))))
       = js ''Go?''
   \<and> extractInterruptPayload example_reported = Inr Null \<and> \<not> truthy Null
   \<and> extractCurrentStepFromThread example_reported = Inr []
   \<and> requests (initAsync example_env (Response True 200 [] (Inr example_reported))
                  (initial_app [] (Some (js ''t1''))))
       = [GetThread (js ''t1'')]
   \<and> stored_tid (initAsync example_env (Response True 200 [] (Inr example_reported))
                  (initial_app [] (Some (js ''t1''))))
       = None
   \<and> uiState (initAsync example_env (Response True 200 [] (Inr example_reported))
                  (initial_app [] (Some (js ''t1''))))
       = Idle
   \<and> ls_stored_tid (ls_initial_app [] (Some (js ''t1''))) = Some (js ''t1'')
   \<and> ls_threadId (ls_init (ls_initial_app [] (Some (js ''t1'')))) = Str (js ''t1'')"
proof -
  have s: "stored_tid (initial_app [] (Some (js ''t1''))) = Some (js ''t1'')"
    by (simp add: initial_app_def)
  have n: "js ''t1'' \<noteq> []" by simp
  have i: "extractInterruptPayload example_interrupted = Inr example_payload"
    "truthy example_payload"
    "js_String (js_or (get example_payload (js ''question'')) (Str (js ''Approve?''))) = Some (js ''Go?'')"
    "renderPreview (js_or (get example_payload (js ''analysis_preview'')) (Arr [])) = None"
    by (simp_all add: extractInterruptPayload_def example_interrupted_def example_payload_def
        candidate_payload_def js_coalesce_def js_or_def renderPreview_def)
  have c: "extractCurrentStepFromThread example_interrupted = Inr []"
    "extractCurrentStepFromThread example_reported = Inr []"
    by (simp_all add: extractCurrentStepFromThread_def example_interrupted_def example_reported_def
        js_or_def to_text_def)
  have r: "extractInterruptPayload example_reported = Inr Null"
    by (simp add: extractInterruptPayload_def example_reported_def candidate_payload_def js_or_def)
  have l: "ls_stored_tid (ls_initial_app [] (Some (js ''t1''))) = Some (js ''t1'')"
    by (simp add: ls_initial_app_def)
  from persisted_session_checked_at_start
         [OF s n, of example_env "Response True 200 [] (Inr example_interrupted)" 200 "[]"
            example_interrupted example_payload "[]" "js ''Go?''" _ _ "ls_initial_app [] (Some (js ''t1''))"]
       persisted_session_checked_at_start
         [OF s n, of example_env "Response True 200 [] (Inr example_reported)" 200 "[]"
            example_reported Null "[]" _ _ _ "ls_initial_app [] (Some (js ''t1''))"]
       s n i c r l
  show ?thesis by (simp add: initial_app_def)
qed

text \<open>
  Claim C2 as stated fails in the request/response client: loaded with the stored
  identifier \<^verbatim>\<open>t1\<close>, it sends no request, and the identifier is neither removed from
  storage nor bound to a phase of waiting for approval.
\<close>

theorem restore_without_poll_counterexample:
  "ls_requests (ls_init (ls_initial_app [] (Some (js ''t1'')))) = []
   \<and> ls_threadId (ls_init (ls_initial_app [] (Some (js ''t1'')))) = Str (js ''t1'')
   \<and> ls_stored_tid (ls_init (ls_initial_app [] (Some (js ''t1'')))) = Some (js ''t1'')
   \<and> ls_uiState (ls_init (ls_initial_app [] (Some (js ''t1'')))) = Idle"
  by (simp add: ls_init_def ls_initial_app_def restoreThreadId_def addLog_def ls_setUiState_def
      Let_def)

section \<open>Failures and the session identifier\<close>















end
